theory Spec2Isabelle
  imports Complex_Main "HOL-Library.AList"
begin

section \<open>Tables as pandas reads them\<close>

text \<open>
  Every table of the pipeline is read from a text file by \<open>pd.read_csv\<close>. A cell is
  either the value that was read (kept here as its text) or the missing value \<open>NaN\<close>.
  Equality of cells stands for equality of the parsed values of one column.
  \<open>str\<close> is the text that an f-string or \<open>astype(str)\<close> produces for a cell.
\<close>

datatype cell = NaN | Val string

fun str :: "cell \<Rightarrow> string" where
  "str NaN = ''nan''"
| "str (Val s) = s"

text \<open>The \<open>.bim\<close> file, read with the column names \<open>chr, rsID, cm, pos, A1, A2\<close>.\<close>

record bim_row =
  bim_chr :: cell
  bim_rsID :: cell
  bim_cm :: cell
  bim_pos :: cell
  bim_A1 :: cell
  bim_A2 :: cell

text \<open>The \<open>.fam\<close> file, read with the column names \<open>FID, IID, PID, MID, SEX, PHENOTYPE\<close>.\<close>

record fam_row =
  fam_FID :: cell
  fam_IID :: cell
  fam_PID :: cell
  fam_MID :: cell
  fam_SEX :: cell
  fam_PHENOTYPE :: cell

text \<open>
  A scoring file: the header that \<open>read_csv\<close> found and the rows. A row carries the
  five columns the code reads; the field of a column that is absent from the header is
  never read.
\<close>

record scoring_row =
  rsID :: cell
  chr_name :: cell
  chr_position :: cell
  effect_allele :: cell
  effect_weight :: cell

record pgs_data =
  columns :: "string list"
  rows :: "scoring_row list"

text \<open>
  One file of the scoring folder, as \<open>glob\<close> lists it: its base name and what
  \<open>read_csv\<close> returns for it (\<open>None\<close> when reading raises).
\<close>

record pgs_file =
  fname :: string
  content :: "pgs_data option"

text \<open>A line of the weight file written for PLINK: \<open>SNP A1 WEIGHT\<close>.\<close>

type_synonym weight_row = "cell \<times> cell \<times> cell"

text \<open>A row of a \<open>.profile\<close> file written by \<open>plink --score\<close>; only these columns are read.\<close>

record profile_row =
  prof_FID :: cell
  prof_IID :: cell
  prof_SCORE :: cell

text \<open>
  The \<open>.raw\<close> file written by \<open>plink --recode A\<close>: the sample columns and one dosage
  column per extracted variant.
\<close>

record raw_row =
  raw_FID :: cell
  raw_IID :: cell
  dosages :: "cell list"

record raw_data =
  variant_columns :: "string list"
  raw_rows :: "raw_row list"

text \<open>
  The PLINK file set behind \<open>plink_file_path\<close>. The two PLINK invocations are
  collaborators of the code: \<open>plink_score\<close> is \<open>plink --score\<close> on a weight file
  (\<open>None\<close> for a non-zero return code, in which case no \<open>.profile\<close> is written),
  \<open>plink_extract\<close> is \<open>--extract\<close> followed by \<open>--recode A\<close> on a variant list
  (the extractor raises before it can start it).
\<close>

record plink_file =
  bim_data :: "bim_row list"
  fam_data :: "fam_row list"
  plink_score :: "weight_row list \<Rightarrow> profile_row list option"
  plink_extract :: "cell set \<Rightarrow> raw_data option"

text \<open>A data frame built by the code: its columns in order, each a name and its values.\<close>

type_synonym frame = "(string \<times> cell list) list"

section \<open>Errors\<close>

text \<open>Exceptions that the two \<open>except Exception\<close> clauses catch.\<close>

datatype exn = ReadError | ValueError | ZeroDivisionError | KeyError | IndexError

text \<open>
  Why a scoring file is left out. The code only prints a message; the names are those of
  the specification. An empty scoring file is left out through \<open>Caught\<close>: the coverage
  line divides by zero.
\<close>

datatype skip =
    UnresolvableIdentifierScheme
  | MissingRequiredColumns "string list"
  | NoOverlap
  | ExternalScorerFailure
  | Caught exn

datatype run_error = NoScorableDefinitions | AggregationFailed exn

section \<open>String replacement\<close>

text \<open>
  Python's \<open>s.replace(old, new)\<close>: one pass from the left over non-overlapping
  occurrences; with an empty \<open>old\<close>, \<open>new\<close> is put before every character and at the end.
\<close>

function str_replace :: "string \<Rightarrow> string \<Rightarrow> string \<Rightarrow> string" where
  "str_replace old new s =
     (if old = [] then new @ concat (map (\<lambda>c. c # new) s)
      else if s = [] then []
      else if take (length old) s = old then new @ str_replace old new (drop (length old) s)
      else hd s # str_replace old new (tl s))"
  by pat_completeness auto
termination
  by (relation "measure (\<lambda>(old, new, s). length s)") auto

declare str_replace.simps [simp del]

section \<open>Identifier normalisation and matching (both functions)\<close>

text \<open>
  Lines 33-37 of \<open>pgs_calculator.py\<close> and 46-49, 59 of \<open>snp_extractor.py\<close>: the set of
  variant IDs of the panel and the dictionary from \<open>chr{chr}:{pos}\<close> to the ID; a later
  row overwrites an earlier one at the same position.
\<close>

definition pos_id :: "cell \<Rightarrow> cell \<Rightarrow> string" where
  "pos_id c p = ''chr'' @ str c @ '':'' @ str p"

definition pos_dict :: "bim_row list \<Rightarrow> (string \<rightharpoonup> cell)" where
  "pos_dict bim =
     fold (\<lambda>row d. d(pos_id (bim_chr row) (bim_pos row) \<mapsto> bim_rsID row)) bim Map.empty"

definition snps :: "bim_row list \<Rightarrow> cell set" where
  "snps bim = set (map bim_rsID bim)"

definition is_rsid_based :: "pgs_data \<Rightarrow> bool" where
  "is_rsid_based d = (''rsID'' \<in> set (columns d))"

definition is_position_based :: "pgs_data \<Rightarrow> bool" where
  "is_position_based d = (''chr_name'' \<in> set (columns d) \<and> ''chr_position'' \<in> set (columns d))"

definition missing_columns :: "pgs_data \<Rightarrow> string list" where
  "missing_columns d = [col \<leftarrow> [''effect_allele'', ''effect_weight'']. col \<notin> set (columns d)]"

text \<open>
  The two lambdas of lines 74 and 78 (52-56 in the extractor) on one row: build the
  positional string, then \<open>pos_dict.get(x, x)\<close>.
\<close>

definition synthetic_id :: "(string \<rightharpoonup> cell) \<Rightarrow> scoring_row \<Rightarrow> cell" where
  "synthetic_id d row =
     (let x = pos_id (chr_name row) (chr_position row)
      in case d x of Some r \<Rightarrow> r | None \<Rightarrow> Val x)"

text \<open>
  The block under \<open>if not is_rsid_based and is_position_based\<close>. Nothing is raised
  here, on a frame without rows either: such a file fails later, at the coverage line.
  The column \<open>original_id\<close> is added and never read.
\<close>

definition with_rsID :: "bim_row list \<Rightarrow> pgs_data \<Rightarrow> exn + pgs_data" where
  "with_rsID bim d =
     (if \<not> is_rsid_based d \<and> is_position_based d then
        Inr \<lparr>columns = columns d @ [''rsID'', ''original_id''],
             rows = map (\<lambda>row. row\<lparr>rsID := synthetic_id (pos_dict bim) row\<rparr>) (rows d)\<rparr>
      else Inr d)"

definition pgs_snps :: "pgs_data \<Rightarrow> cell set" where
  "pgs_snps d = set (map rsID (rows d))"

definition common_snps :: "bim_row list \<Rightarrow> pgs_data \<Rightarrow> cell set" where
  "common_snps bim d = pgs_snps d \<inter> snps bim"

section \<open>\<open>calculate_pgs\<close>: one scoring file\<close>

text \<open>The percentage printed at line 84: \<open>len(common_snps)/len(pgs_data)*100\<close>.\<close>

definition coverage_calculator :: "bim_row list \<Rightarrow> pgs_data \<Rightarrow> exn + real" where
  "coverage_calculator bim d =
     (if length (rows d) = 0 then Inl ZeroDivisionError
      else Inr (real (card (common_snps bim d)) / real (length (rows d)) * 100))"

text \<open>Line 91: the boolean mask of \<open>isin\<close> selects the rows, in their order.\<close>

definition filtered_pgs :: "cell set \<Rightarrow> pgs_data \<Rightarrow> scoring_row list" where
  "filtered_pgs common d =
     map fst (filter snd (zip (rows d) (map (\<lambda>row. rsID row \<in> common) (rows d))))"

text \<open>Lines 96-100: one line is appended to the weight file for each row.\<close>

fun write_weights :: "scoring_row list \<Rightarrow> weight_row list \<Rightarrow> weight_row list" where
  "write_weights [] f = f"
| "write_weights (row # rest) f =
     write_weights rest (f @ [(rsID row, effect_allele row, effect_weight row)])"

text \<open>Lines 51-100 for one file: the weight file, or the reason the file is left out.\<close>

definition weight_file :: "bim_row list \<Rightarrow> pgs_file \<Rightarrow> skip + weight_row list" where
  "weight_file bim f =
     (case content f of
        None \<Rightarrow> Inl (Caught ReadError)
      | Some d \<Rightarrow>
          if \<not> is_rsid_based d \<and> \<not> is_position_based d then Inl UnresolvableIdentifierScheme
          else if missing_columns d \<noteq> [] then Inl (MissingRequiredColumns (missing_columns d))
          else (case with_rsID bim d of
                  Inl e \<Rightarrow> Inl (Caught e)
                | Inr d' \<Rightarrow>
                    (case coverage_calculator bim d' of
                       Inl e \<Rightarrow> Inl (Caught e)
                     | Inr percent \<Rightarrow>
                         if card (common_snps bim d') = 0 then Inl NoOverlap
                         else Inr (write_weights (filtered_pgs (common_snps bim d') d') []))))"

definition pgs_name :: "pgs_file \<Rightarrow> string" where
  "pgs_name f = str_replace ''.txt'' '''' (fname f)"

text \<open>
  Lines 102-118: PLINK scores the weight file; on return code 0 the file
  \<open>{pgs_name}.profile\<close> of the temporary directory holds the score table.
\<close>

definition process_pgs_file :: "plink_file \<Rightarrow> pgs_file \<Rightarrow> skip + (string \<times> profile_row list)" where
  "process_pgs_file pf f =
     (case weight_file (bim_data pf) f of
        Inl e \<Rightarrow> Inl e
      | Inr w \<Rightarrow>
          (case plink_score pf w of
             None \<Rightarrow> Inl ExternalScorerFailure
           | Some table \<Rightarrow> Inr (pgs_name f @ ''.profile'', table)))"

text \<open>
  The loop of lines 46-122. Its state is the temporary directory (the \<open>.profile\<close> files
  by name) and the list \<open>profile_files\<close>; a file that is left out changes neither.
\<close>

type_synonym temp_dir = "string \<rightharpoonup> profile_row list"

fun process_pgs_files ::
  "plink_file \<Rightarrow> pgs_file list \<Rightarrow> temp_dir \<times> string list \<Rightarrow> temp_dir \<times> string list" where
  "process_pgs_files pf [] st = st"
| "process_pgs_files pf (f # fs) (dir, profile_files) =
     (case process_pgs_file pf f of
        Inl e \<Rightarrow> process_pgs_files pf fs (dir, profile_files)
      | Inr (p, table) \<Rightarrow> process_pgs_files pf fs (dir(p \<mapsto> table), profile_files @ [p]))"

text \<open>
  The score tables that PLINK produced during the loop, in the order of processing: for
  each scoring file that is not left out, the name of its \<open>.profile\<close> file and the
  table written there.
\<close>

definition score_tables :: "plink_file \<Rightarrow> pgs_file list \<Rightarrow> (string \<times> profile_row list) list" where
  "score_tables pf pgs_files =
     concat (map (\<lambda>f. case process_pgs_file pf f of Inl e \<Rightarrow> [] | Inr r \<Rightarrow> [r]) pgs_files)"

section \<open>\<open>calculate_pgs\<close>: merging the score tables\<close>

text \<open>
  Assigning a Series to a column aligns it on the row index \<open>0..n-1\<close> of the frame:
  values beyond the frame are dropped, missing ones are \<open>NaN\<close>.
\<close>

definition align :: "nat \<Rightarrow> cell list \<Rightarrow> cell list" where
  "align n xs = take n xs @ replicate (n - length xs) NaN"

text \<open>
  Lines 134-139. \<open>combined[name] = ...\<close> replaces the column of that name where it
  stands, or appends a new one.
\<close>

definition column_name :: "string \<Rightarrow> string" where
  "column_name profile_file = str_replace ''.profile'' '''' profile_file"

fun add_scores :: "temp_dir \<Rightarrow> nat \<Rightarrow> string list \<Rightarrow> frame \<Rightarrow> exn + frame" where
  "add_scores dir n [] combined = Inr combined"
| "add_scores dir n (profile_file # rest) combined =
     (case dir profile_file of
        None \<Rightarrow> Inl ReadError
      | Some df \<Rightarrow>
          add_scores dir n rest
            (AList.update (column_name profile_file) (align n (map prof_SCORE df)) combined))"

text \<open>
  The type that \<open>read_csv\<close> infers for a column: a column whose texts are all numbers
  (an optional sign, digits with an optional fraction, an optional exponent) or missing
  is numeric; a column with any other text holds strings.
\<close>

definition is_digit :: "char \<Rightarrow> bool" where
  "is_digit c = (c \<in> set ''0123456789'')"

definition unsigned :: "string \<Rightarrow> string" where
  "unsigned s =
     (case s of
        [] \<Rightarrow> []
      | c # r \<Rightarrow> if c = CHR ''-'' \<or> c = CHR ''+'' then r else s)"

definition decimal_text :: "string \<Rightarrow> bool" where
  "decimal_text s =
     (case dropWhile is_digit s of
        [] \<Rightarrow> s \<noteq> []
      | c # fraction \<Rightarrow>
          c = CHR ''.'' \<and> list_all is_digit fraction
          \<and> (takeWhile is_digit s \<noteq> [] \<or> fraction \<noteq> []))"

definition numeric_text :: "string \<Rightarrow> bool" where
  "numeric_text s =
     (let u = unsigned s;
          mantissa = takeWhile (\<lambda>c. c \<noteq> CHR ''e'' \<and> c \<noteq> CHR ''E'') u
      in decimal_text mantissa \<and>
         (case dropWhile (\<lambda>c. c \<noteq> CHR ''e'' \<and> c \<noteq> CHR ''E'') u of
            [] \<Rightarrow> True
          | e # exponent \<Rightarrow> unsigned exponent \<noteq> [] \<and> list_all is_digit (unsigned exponent)))"

definition object_column :: "cell list \<Rightarrow> bool" where
  "object_column v = list_ex (\<lambda>c. case c of NaN \<Rightarrow> False | Val s \<Rightarrow> \<not> numeric_text s) v"

text \<open>
  \<open>pd.merge\<close> refuses to join a key column of strings with a numeric one, unless one of
  the two frames has no rows.
\<close>

definition key_types_differ :: "cell list \<Rightarrow> cell list \<Rightarrow> bool" where
  "key_types_differ lk rk = (lk \<noteq> [] \<and> rk \<noteq> [] \<and> object_column lk \<noteq> object_column rk)"

text \<open>
  Line 148, \<open>pd.merge(combined, phenotype_data, on=['FID', 'IID'], how='left')\<close>.
  It raises when the key columns of the two frames have different types. Otherwise
  every row of the left frame is kept, in order: once for each row of the \<open>.fam\<close> file
  with the same \<open>FID\<close> and \<open>IID\<close>, or once with \<open>NaN\<close> when there is none. A column
  of the left frame that is itself called \<open>PHENOTYPE\<close> gets the suffix \<open>_x\<close>, the one
  of the \<open>.fam\<close> file the suffix \<open>_y\<close>.
\<close>

definition matched :: "fam_row list \<Rightarrow> cell \<Rightarrow> cell \<Rightarrow> cell list" where
  "matched fam f i =
     (case map fam_PHENOTYPE (filter (\<lambda>r. fam_FID r = f \<and> fam_IID r = i) fam) of
        [] \<Rightarrow> [NaN]
      | ps \<Rightarrow> ps)"

definition expand :: "cell list list \<Rightarrow> cell list \<Rightarrow> cell list" where
  "expand m v = concat (map (\<lambda>(ps, x). replicate (length ps) x) (zip m v))"

definition merge_left :: "frame \<Rightarrow> fam_row list \<Rightarrow> exn + frame" where
  "merge_left left fam =
     (case (map_of left ''FID'', map_of left ''IID'') of
        (Some fids, Some iids) \<Rightarrow>
          if key_types_differ fids (map fam_FID fam) \<or> key_types_differ iids (map fam_IID fam)
          then Inl ValueError
          else
            (let m = map (\<lambda>(f, i). matched fam f i) (zip fids iids);
                 overlap = (''PHENOTYPE'' \<in> fst ` set left)
             in Inr (map (\<lambda>(k, v). (if k = ''PHENOTYPE'' then ''PHENOTYPE_x'' else k, expand m v)) left
                     @ [(if overlap then ''PHENOTYPE_y'' else ''PHENOTYPE'', concat m)]))
      | _ \<Rightarrow> Inl KeyError)"

text \<open>\<open>drop(labels, axis=1)\<close> raises when a label is not a column.\<close>

definition drop_columns :: "string list \<Rightarrow> frame \<Rightarrow> exn + frame" where
  "drop_columns labels f =
     (if set labels \<subseteq> fst ` set f then Inr (filter (\<lambda>c. fst c \<notin> set labels) f)
      else Inl KeyError)"

text \<open>
  What a successful run produces: the frame written to \<open>output_csv_path\<close> and the
  returned pair \<open>(X, y)\<close>.
\<close>

record dataset =
  final_dataset :: frame
  ds_X :: frame
  ds_y :: "cell list"

text \<open>Lines 130-153 inside the \<open>try\<close>, for a non-empty \<open>profile_files\<close>.\<close>

definition combine :: "temp_dir \<Rightarrow> string list \<Rightarrow> exn + frame" where
  "combine dir profile_files =
     (case profile_files of
        [] \<Rightarrow> Inl IndexError
      | first # _ \<Rightarrow>
          (case dir first of
             None \<Rightarrow> Inl ReadError
           | Some base_df \<Rightarrow>
               add_scores dir (length base_df) profile_files
                 [(''FID'', map prof_FID base_df), (''IID'', map prof_IID base_df)]))"

definition join_phenotype :: "frame \<Rightarrow> fam_row list \<Rightarrow> exn + dataset" where
  "join_phenotype combined fam =
     (case merge_left combined fam of
        Inl e \<Rightarrow> Inl e
      | Inr merged \<Rightarrow>
          (case drop_columns [''FID'', ''IID'', ''PHENOTYPE''] merged of
             Inl e \<Rightarrow> Inl e
           | Inr x \<Rightarrow>
               (case (map_of merged ''PHENOTYPE'', map_of merged ''FID'', map_of merged ''IID'') of
                  (Some ph, Some fid, Some iid) \<Rightarrow>
                    Inr \<lparr>final_dataset = [(''FID'', fid), (''IID'', iid)] @ x @ [(''y'', ph)],
                         ds_X = x, ds_y = ph\<rparr>
                | _ \<Rightarrow> Inl KeyError)))"

text \<open>
  Lines 124-169. \<open>Inl\<close> is the return value \<open>(None, None)\<close>, reached before anything
  is written to \<open>output_csv_path\<close>; \<open>Inr\<close> is the frame written there together with
  the returned \<open>(X, y)\<close>. Creating the directories and removing the temporary files
  are steps of the file system and are not part of the model.
\<close>

definition aggregate :: "temp_dir \<Rightarrow> string list \<Rightarrow> fam_row list \<Rightarrow> run_error + dataset" where
  "aggregate dir profile_files fam =
     (if profile_files = [] then Inl NoScorableDefinitions
      else (case combine dir profile_files of
              Inl e \<Rightarrow> Inl (AggregationFailed e)
            | Inr combined \<Rightarrow>
                (case join_phenotype combined fam of
                   Inl e \<Rightarrow> Inl (AggregationFailed e)
                 | Inr ds \<Rightarrow> Inr ds)))"

definition calculate_pgs :: "plink_file \<Rightarrow> pgs_file list \<Rightarrow> run_error + dataset" where
  "calculate_pgs pf pgs_files =
     (case process_pgs_files pf pgs_files (Map.empty, []) of
        (dir, profile_files) \<Rightarrow> aggregate dir profile_files (fam_data pf))"

definition output_csv :: "run_error + dataset \<Rightarrow> frame option" where
  "output_csv r = (case r of Inl e \<Rightarrow> None | Inr ds \<Rightarrow> Some (final_dataset ds))"

definition returned :: "run_error + dataset \<Rightarrow> (frame \<times> cell list) option" where
  "returned r = (case r of Inl e \<Rightarrow> None | Inr ds \<Rightarrow> Some (ds_X ds, ds_y ds))"

section \<open>\<open>extract_pgs_snps_to_dataset\<close>\<close>

text \<open>The percentage printed at line 64: \<open>len(common_snps)/len(pgs_snps)*100\<close>.\<close>

definition coverage_extractor :: "bim_row list \<Rightarrow> pgs_data \<Rightarrow> exn + real" where
  "coverage_extractor bim d =
     (if card (pgs_snps d) = 0 then Inl ZeroDivisionError
      else Inr (real (card (common_snps bim d)) / real (card (pgs_snps d)) * 100))"

text \<open>
  Lines 112-116: the key \<open>FID_IID\<close> of a sample, the dictionary from the keys of the
  \<open>.fam\<close> file to the phenotypes (a later row overwrites an earlier one with the same
  key), and \<open>genotypes['ID'].map(phenotype_dict)\<close>, which gives \<open>NaN\<close> for a key that
  is not in the dictionary.
\<close>

definition sample_id :: "cell \<Rightarrow> cell \<Rightarrow> string" where
  "sample_id f i = str f @ ''_'' @ str i"

definition phenotype_dict :: "fam_row list \<Rightarrow> (string \<rightharpoonup> cell)" where
  "phenotype_dict fam =
     fold (\<lambda>r d. d(sample_id (fam_FID r) (fam_IID r) \<mapsto> fam_PHENOTYPE r)) fam Map.empty"

definition label_vector :: "raw_row list \<Rightarrow> fam_row list \<Rightarrow> cell list" where
  "label_vector genotypes fam =
     map (\<lambda>g. case phenotype_dict fam (sample_id (raw_FID g) (raw_IID g)) of
                 Some p \<Rightarrow> p
               | None \<Rightarrow> NaN) genotypes"

record extraction =
  ext_X_columns :: "string list"
  ext_X :: "cell list list"
  ext_y :: "cell list"
  full_dataset :: "(cell \<times> cell \<times> cell list \<times> cell) list"

text \<open>
  Lines 79 and 95 call \<open>subprocess.run\<close> with \<open>capture_output=True\<close> together with
  \<open>stdout\<close> and \<open>stderr\<close>. Python raises \<open>ValueError\<close> for this combination of
  arguments, before any process is started, whatever the command is.
\<close>

definition run_extract :: "plink_file \<Rightarrow> cell set \<Rightarrow> exn + raw_data option" where
  "run_extract pf ids = Inl ValueError"

text \<open>
  The whole function; \<open>Inl\<close> is the return value \<open>(None, None)\<close>. The lines after the
  call of line 79 are kept as they are written: a run of PLINK that fails, or whose
  \<open>.raw\<close> file cannot be read, would be the result \<open>None\<close>.
\<close>

definition extract_pgs_snps_to_dataset :: "pgs_file \<Rightarrow> plink_file \<Rightarrow> skip + extraction" where
  "extract_pgs_snps_to_dataset f pf =
     (case content f of
        None \<Rightarrow> Inl (Caught ReadError)
      | Some d \<Rightarrow>
          if \<not> is_rsid_based d \<and> \<not> is_position_based d then Inl UnresolvableIdentifierScheme
          else (case with_rsID (bim_data pf) d of
                  Inl e \<Rightarrow> Inl (Caught e)
                | Inr d' \<Rightarrow>
                    (case coverage_extractor (bim_data pf) d' of
                       Inl e \<Rightarrow> Inl (Caught e)
                     | Inr percent \<Rightarrow>
                         (case run_extract pf (common_snps (bim_data pf) d') of
                            Inl e \<Rightarrow> Inl (Caught e)
                          | Inr None \<Rightarrow> Inl ExternalScorerFailure
                          | Inr (Some genotypes) \<Rightarrow>
                              (let x = map dosages (raw_rows genotypes);
                                   labels = label_vector (raw_rows genotypes) (fam_data pf)
                               in Inr \<lparr>ext_X_columns = variant_columns genotypes,
                                       ext_X = x,
                                       ext_y = labels,
                                       full_dataset =
                                         map (\<lambda>(g, l). (raw_FID g, raw_IID g, dosages g, l))
                                           (zip (raw_rows genotypes) labels)\<rparr>)))))"

section \<open>Example inputs\<close>

text \<open>
  A panel with the variants \<open>rs1, rs2, rs3\<close> and the samples \<open>(F1, I1)\<close>, \<open>(F2, I2)\<close>,
  a scoring file \<open>A\<close> with rsIDs, a scoring file \<open>B\<close> with positions, and files that
  are left out. The scorer of the example answers a weight file of two lines with a
  table for the two samples, and any other weight file with a table whose second row is
  a sample \<open>(F9, I9)\<close>.
\<close>

definition bim_of :: "string \<Rightarrow> string \<Rightarrow> string \<Rightarrow> bim_row" where
  "bim_of c i p =
     \<lparr>bim_chr = Val c, bim_rsID = Val i, bim_cm = Val ''0'', bim_pos = Val p,
      bim_A1 = Val ''A'', bim_A2 = Val ''G''\<rparr>"

definition fam_of :: "string \<Rightarrow> string \<Rightarrow> string \<Rightarrow> fam_row" where
  "fam_of f i p =
     \<lparr>fam_FID = Val f, fam_IID = Val i, fam_PID = Val ''0'', fam_MID = Val ''0'',
      fam_SEX = Val ''1'', fam_PHENOTYPE = Val p\<rparr>"

definition profile_of :: "string \<Rightarrow> string \<Rightarrow> string \<Rightarrow> profile_row" where
  "profile_of f i s = \<lparr>prof_FID = Val f, prof_IID = Val i, prof_SCORE = Val s\<rparr>"

definition entry_of :: "cell \<Rightarrow> cell \<Rightarrow> cell \<Rightarrow> string \<Rightarrow> string \<Rightarrow> scoring_row" where
  "entry_of i c p a w =
     \<lparr>rsID = i, chr_name = c, chr_position = p, effect_allele = Val a, effect_weight = Val w\<rparr>"

definition example_bim :: "bim_row list" where
  "example_bim = [bim_of ''1'' ''rs1'' ''100'', bim_of ''1'' ''rs2'' ''200'', bim_of ''2'' ''rs3'' ''300'']"

definition example_fam :: "fam_row list" where
  "example_fam = [fam_of ''F1'' ''I1'' ''1'', fam_of ''F2'' ''I2'' ''2'']"

definition example_table_A :: "profile_row list" where
  "example_table_A = [profile_of ''F1'' ''I1'' ''0.5'', profile_of ''F2'' ''I2'' ''0.7'']"

definition example_table_B :: "profile_row list" where
  "example_table_B = [profile_of ''F1'' ''I1'' ''0.1'', profile_of ''F9'' ''I9'' ''0.9'']"

definition example_score :: "weight_row list \<Rightarrow> profile_row list option" where
  "example_score w = (if length w = 2 then Some example_table_A else Some example_table_B)"

definition example_raw :: raw_data where
  "example_raw =
     \<lparr>variant_columns = [''rs1_A''],
      raw_rows = [\<lparr>raw_FID = Val ''F1'', raw_IID = Val ''I1'', dosages = [Val ''2'']\<rparr>,
                  \<lparr>raw_FID = Val ''F9'', raw_IID = Val ''I9'', dosages = [Val ''0'']\<rparr>]\<rparr>"

definition example_panel :: plink_file where
  "example_panel =
     \<lparr>bim_data = example_bim, fam_data = example_fam, plink_score = example_score,
      plink_extract = (\<lambda>ids. Some example_raw)\<rparr>"

definition example_A :: pgs_file where
  "example_A =
     \<lparr>fname = ''A.txt'',
      content = Some \<lparr>columns = [''rsID'', ''effect_allele'', ''effect_weight''],
                      rows = [entry_of (Val ''rs1'') NaN NaN ''A'' ''0.1'',
                              entry_of (Val ''rs2'') NaN NaN ''G'' ''0.2'',
                              entry_of (Val ''rs9'') NaN NaN ''T'' ''0.3'']\<rparr>\<rparr>"

definition example_B :: pgs_file where
  "example_B =
     \<lparr>fname = ''B.txt'',
      content = Some \<lparr>columns = [''chr_name'', ''chr_position'', ''effect_allele'', ''effect_weight''],
                      rows = [entry_of NaN (Val ''2'') (Val ''300'') ''C'' ''0.4'',
                              entry_of NaN (Val ''7'') (Val ''700'') ''C'' ''0.6'']\<rparr>\<rparr>"

text \<open>A file without identifier columns, and an empty file.\<close>

definition example_no_ids :: pgs_file where
  "example_no_ids =
     \<lparr>fname = ''N.txt'',
      content = Some \<lparr>columns = [''effect_allele'', ''effect_weight''],
                      rows = [entry_of NaN NaN NaN ''A'' ''0.1'']\<rparr>\<rparr>"

definition example_empty :: pgs_file where
  "example_empty =
     \<lparr>fname = ''E.txt'',
      content = Some \<lparr>columns = [''rsID'', ''effect_allele'', ''effect_weight''], rows = []\<rparr>\<rparr>"

text \<open>
  A file with an \<open>rsID\<close> column and the positional columns, whose first row has no rsID
  and the position of \<open>rs1\<close>; and a file that lists \<open>rs1\<close> twice.
\<close>

definition example_mixed :: pgs_data where
  "example_mixed =
     \<lparr>columns = [''rsID'', ''chr_name'', ''chr_position'', ''effect_allele'', ''effect_weight''],
      rows = [entry_of NaN (Val ''1'') (Val ''100'') ''A'' ''0.1'',
              entry_of (Val ''rs2'') (Val ''1'') (Val ''200'') ''G'' ''0.2'']\<rparr>"

definition example_mixed_file :: pgs_file where
  "example_mixed_file = \<lparr>fname = ''M.txt'', content = Some example_mixed\<rparr>"

definition example_twice :: pgs_data where
  "example_twice =
     \<lparr>columns = [''rsID'', ''effect_allele'', ''effect_weight''],
      rows = [entry_of (Val ''rs1'') NaN NaN ''A'' ''0.1'',
              entry_of (Val ''rs1'') NaN NaN ''G'' ''0.2'']\<rparr>"

text \<open>Two files of one folder whose names give the same \<open>pgs_name\<close>.\<close>

definition example_A_again :: pgs_file where
  "example_A_again = example_A\<lparr>fname := ''A.txt.txt''\<rparr>"

text \<open>
  The panel of the example with a \<open>.fam\<close> file that lacks the sample \<open>(F2, I2)\<close>, and
  with a \<open>.fam\<close> file that lists the sample \<open>(F1, I1)\<close> twice.
\<close>

definition example_panel_one_sample :: plink_file where
  "example_panel_one_sample = example_panel\<lparr>fam_data := [fam_of ''F1'' ''I1'' ''1'']\<rparr>"

definition example_panel_repeated_sample :: plink_file where
  "example_panel_repeated_sample =
     example_panel\<lparr>fam_data := [fam_of ''F1'' ''I1'' ''1'', fam_of ''F1'' ''I1'' ''2'']\<rparr>"

section \<open>Identifier normalisation\<close>

lemma pos_dict_fold:
  "fold (\<lambda>row d. d(pos_id (bim_chr row) (bim_pos row) \<mapsto> bim_rsID row)) bim m x =
     (case filter (\<lambda>b. pos_id (bim_chr b) (bim_pos b) = x) bim of
        [] \<Rightarrow> m x
      | bs \<Rightarrow> Some (bim_rsID (last bs)))"
  by (induction bim arbitrary: m) (auto split: list.splits)

lemma pos_dict_lookup:
  "pos_dict bim x =
     (case filter (\<lambda>b. pos_id (bim_chr b) (bim_pos b) = x) bim of
        [] \<Rightarrow> None
      | bs \<Rightarrow> Some (bim_rsID (last bs)))"
  by (simp add: pos_dict_def pos_dict_fold)

lemma with_rsID_length: "with_rsID bim d = Inr d' \<Longrightarrow> length (rows d') = length (rows d)"
  by (auto simp: with_rsID_def split: if_splits)

text \<open>
  C4, as amended. For every entry of a scoring file that has no \<open>rsID\<close> column and has
  the columns \<open>chr_name\<close> and \<open>chr_position\<close>, the identifier is obtained from the string
  \<open>chr{chr_name}:{chr_position}\<close>: when a row of the panel has that key, the identifier
  is the ID of the last such row; when none has, it is the string itself.
\<close>

theorem positional_file_identifiers:
  assumes "''rsID'' \<notin> set (columns d)"
    and "''chr_name'' \<in> set (columns d)" and "''chr_position'' \<in> set (columns d)"
    and "rows d \<noteq> []"
  shows "\<exists>d'. with_rsID bim d = Inr d'
           \<and> map rsID (rows d') = map (synthetic_id (pos_dict bim)) (rows d)
           \<and> (\<forall>row \<in> set (rows d).
                 synthetic_id (pos_dict bim) row =
                   (case filter (\<lambda>b. pos_id (bim_chr b) (bim_pos b)
                                      = pos_id (chr_name row) (chr_position row)) bim of
                      [] \<Rightarrow> Val (pos_id (chr_name row) (chr_position row))
                    | bs \<Rightarrow> bim_rsID (last bs)))"
proof -
  have "with_rsID bim d =
          Inr \<lparr>columns = columns d @ [''rsID'', ''original_id''],
               rows = map (\<lambda>row. row\<lparr>rsID := synthetic_id (pos_dict bim) row\<rparr>) (rows d)\<rparr>"
    using assms by (simp add: with_rsID_def is_rsid_based_def is_position_based_def)
  moreover have "synthetic_id (pos_dict bim) row =
                   (case filter (\<lambda>b. pos_id (bim_chr b) (bim_pos b)
                                      = pos_id (chr_name row) (chr_position row)) bim of
                      [] \<Rightarrow> Val (pos_id (chr_name row) (chr_position row))
                    | bs \<Rightarrow> bim_rsID (last bs))" for row
    by (simp add: synthetic_id_def pos_dict_lookup split: list.splits)
  ultimately show ?thesis by (simp add: comp_def)
qed

theorem positional_file_identifiers_witness:
  "\<exists>d'. with_rsID example_bim (the (content example_B)) = Inr d'
         \<and> map rsID (rows d') = [Val ''rs3'', Val ''chr7:700'']"
proof -
  have h: "''rsID'' \<notin> set (columns (the (content example_B)))"
      "''chr_name'' \<in> set (columns (the (content example_B)))"
      "''chr_position'' \<in> set (columns (the (content example_B)))"
      "rows (the (content example_B)) \<noteq> []"
    by (simp_all add: example_B_def)
  have "map (synthetic_id (pos_dict example_bim)) (rows (the (content example_B)))
          = [Val ''rs3'', Val ''chr7:700'']"
    by code_simp
  with positional_file_identifiers[OF h, of example_bim] show ?thesis by auto
qed

text \<open>
  C4 as stated fails: the first entry of \<open>example_mixed\<close> has a chromosome and a
  position and no rsID, its key \<open>chr1:100\<close> is in the dictionary with the ID \<open>rs1\<close>,
  and its identifier stays the missing value, because the file has an \<open>rsID\<close> column;
  the weight file has no line for it.
\<close>

theorem positional_lookup_counterexample:
  "map rsID (rows example_mixed) = [NaN, Val ''rs2'']
   \<and> map chr_name (rows example_mixed) = [Val ''1'', Val ''1'']
   \<and> map chr_position (rows example_mixed) = [Val ''100'', Val ''200'']
   \<and> pos_dict example_bim (pos_id (Val ''1'') (Val ''100'')) = Some (Val ''rs1'')
   \<and> with_rsID example_bim example_mixed = Inr example_mixed
   \<and> weight_file example_bim example_mixed_file = Inr [(Val ''rs2'', Val ''G'', Val ''0.2'')]"
  by code_simp

section \<open>The weight file\<close>

lemma write_weights_append:
  "write_weights rs acc = acc @ map (\<lambda>row. (rsID row, effect_allele row, effect_weight row)) rs"
  by (induction rs arbitrary: acc) simp_all

lemma mask_filter: "map fst (filter snd (zip xs (map P xs))) = filter P xs"
  by (induction xs) simp_all

lemma filtered_pgs_filter: "filtered_pgs common d = filter (\<lambda>row. rsID row \<in> common) (rows d)"
  by (simp add: filtered_pgs_def mask_filter)

lemma weight_file_Inr:
  assumes "weight_file bim f = Inr w"
  obtains d d' where "content f = Some d" "with_rsID bim d = Inr d'"
    "w = write_weights (filtered_pgs (common_snps bim d') d') []"
    "common_snps bim d' \<noteq> {}"
  using assms
  by (auto simp: weight_file_def common_snps_def pgs_snps_def coverage_calculator_def
           split: option.splits if_splits sum.splits)

text \<open>
  C5. When a weight file is written for a scoring file, its lines are exactly the entries
  whose identifier is among the common variants, each projected to identifier, effect
  allele and weight, in the order of the scoring file and with repeated identifiers kept;
  so it has at most as many lines as the scoring file has entries, and every identifier
  in it is a variant ID of the panel.
\<close>

theorem weight_table_filters_definition:
  assumes "content f = Some d" and "with_rsID bim d = Inr d'" and "weight_file bim f = Inr w"
  shows "w = map (\<lambda>row. (rsID row, effect_allele row, effect_weight row))
               (filter (\<lambda>row. rsID row \<in> common_snps bim d') (rows d'))
         \<and> length w \<le> length (rows d)
         \<and> (\<forall>line \<in> set w. fst line \<in> snps bim)"
proof -
  from assms(3) obtain d0 d0' where *: "content f = Some d0" "with_rsID bim d0 = Inr d0'"
    "w = write_weights (filtered_pgs (common_snps bim d0') d0') []"
    by (rule weight_file_Inr)
  with assms(1,2) have "d0 = d" "d0' = d'" by simp_all
  with * have w: "w = map (\<lambda>row. (rsID row, effect_allele row, effect_weight row))
               (filter (\<lambda>row. rsID row \<in> common_snps bim d') (rows d'))"
    by (simp add: write_weights_append filtered_pgs_filter)
  have "length w \<le> length (rows d')" unfolding w by simp
  then have len: "length w \<le> length (rows d)" using with_rsID_length[OF assms(2)] by simp
  have "\<forall>line \<in> set w. fst line \<in> snps bim" unfolding w by (auto simp: common_snps_def)
  with w len show ?thesis by blast
qed

theorem weight_table_filters_definition_witness:
  "weight_file example_bim example_A
     = Inr [(Val ''rs1'', Val ''A'', Val ''0.1''), (Val ''rs2'', Val ''G'', Val ''0.2'')]
   \<and> length [(Val ''rs1'', Val ''A'', Val ''0.1''), (Val ''rs2'', Val ''G'', Val ''0.2'')]
       \<le> length (rows (the (content example_A)))
   \<and> {Val ''rs1'', Val ''rs2''} \<subseteq> snps example_bim"
proof -
  have h1: "content example_A = Some (the (content example_A))"
    by (simp add: example_A_def)
  have h2: "with_rsID example_bim (the (content example_A)) = Inr (the (content example_A))"
    by code_simp
  have h3: "weight_file example_bim example_A
              = Inr [(Val ''rs1'', Val ''A'', Val ''0.1''), (Val ''rs2'', Val ''G'', Val ''0.2'')]"
    by code_simp
  from weight_table_filters_definition[OF h1 h2 h3] h3 show ?thesis by simp
qed

text \<open>
  C10. The scheme is decided by the header: for a scoring file with an \<open>rsID\<close> column the
  normalisation step returns the file as it was read, whatever the panel and whatever
  other columns there are. No entry is resolved by position, an entry whose rsID is
  missing keeps the missing value as its identifier, and the weight file is made of the
  rows whose \<open>rsID\<close> cell, as read, is a variant ID of the panel.
\<close>

theorem rsID_column_disables_positions:
  assumes "content f = Some d" and "''rsID'' \<in> set (columns d)"
  shows "with_rsID bim d = Inr d
         \<and> pgs_snps d = set (map rsID (rows d))
         \<and> (\<forall>w. weight_file bim f = Inr w \<longrightarrow>
               w = map (\<lambda>row. (rsID row, effect_allele row, effect_weight row))
                     (filter (\<lambda>row. rsID row \<in> snps bim) (rows d)))"
proof -
  have same: "with_rsID bim d = Inr d"
    using assms(2) by (simp add: with_rsID_def is_rsid_based_def)
  have "w = map (\<lambda>row. (rsID row, effect_allele row, effect_weight row))
              (filter (\<lambda>row. rsID row \<in> snps bim) (rows d))"
    if "weight_file bim f = Inr w" for w
  proof -
    from that obtain d0 d0' where *: "content f = Some d0" "with_rsID bim d0 = Inr d0'"
      "w = write_weights (filtered_pgs (common_snps bim d0') d0') []"
      by (rule weight_file_Inr)
    with assms(1) same have "d0 = d" "d0' = d" by simp_all
    moreover have "filter (\<lambda>row. rsID row \<in> common_snps bim d) (rows d)
                     = filter (\<lambda>row. rsID row \<in> snps bim) (rows d)"
      by (intro filter_cong) (auto simp: common_snps_def pgs_snps_def)
    ultimately show ?thesis
      using * by (simp add: write_weights_append filtered_pgs_filter)
  qed
  with same show ?thesis by (simp add: pgs_snps_def)
qed

theorem rsID_column_disables_positions_witness:
  "with_rsID example_bim example_mixed = Inr example_mixed
   \<and> pgs_snps example_mixed = {NaN, Val ''rs2''}
   \<and> weight_file example_bim example_mixed_file = Inr [(Val ''rs2'', Val ''G'', Val ''0.2'')]
   \<and> filter (\<lambda>row. rsID row \<in> snps example_bim) (rows example_mixed)
        = [entry_of (Val ''rs2'') (Val ''1'') (Val ''200'') ''G'' ''0.2'']"
proof -
  have h1: "content example_mixed_file = Some example_mixed"
    by (simp add: example_mixed_file_def)
  have h2: "''rsID'' \<in> set (columns example_mixed)"
    by (simp add: example_mixed_def)
  have r: "map rsID (rows example_mixed) = [NaN, Val ''rs2'']"
    by (simp add: example_mixed_def entry_of_def)
  have w: "weight_file example_bim example_mixed_file = Inr [(Val ''rs2'', Val ''G'', Val ''0.2'')]"
    by code_simp
  have f: "filter (\<lambda>row. rsID row \<in> snps example_bim) (rows example_mixed)
             = [entry_of (Val ''rs2'') (Val ''1'') (Val ''200'') ''G'' ''0.2'']"
    by code_simp
  from rsID_column_disables_positions[OF h1 h2, of example_bim] r w f show ?thesis by simp
qed

section \<open>Scoring files that are left out\<close>

lemma process_pgs_files_append:
  "process_pgs_files pf (xs @ ys) st = process_pgs_files pf ys (process_pgs_files pf xs st)"
  by (induction pf xs st rule: process_pgs_files.induct) (auto split: sum.splits)

lemma process_pgs_files_all_skipped:
  "\<forall>f \<in> set fs. \<exists>e. process_pgs_file pf f = Inl e \<Longrightarrow> process_pgs_files pf fs st = st"
  by (induction pf fs st rule: process_pgs_files.induct) (auto split: sum.splits)

text \<open>When each of the per-file errors arises.\<close>

lemma unresolvable_scheme_skipped:
  "content f = Some d \<Longrightarrow> \<not> is_rsid_based d \<Longrightarrow> \<not> is_position_based d
     \<Longrightarrow> process_pgs_file pf f = Inl UnresolvableIdentifierScheme"
  by (simp add: process_pgs_file_def weight_file_def)

lemma missing_columns_skipped:
  "content f = Some d \<Longrightarrow> is_rsid_based d \<or> is_position_based d \<Longrightarrow> missing_columns d \<noteq> []
     \<Longrightarrow> process_pgs_file pf f = Inl (MissingRequiredColumns (missing_columns d))"
  by (auto simp: process_pgs_file_def weight_file_def)

lemma empty_definition_skipped:
  "content f = Some d \<Longrightarrow> is_rsid_based d \<or> is_position_based d \<Longrightarrow> missing_columns d = []
     \<Longrightarrow> rows d = []
     \<Longrightarrow> process_pgs_file pf f = Inl (Caught ZeroDivisionError)"
  by (auto simp: process_pgs_file_def weight_file_def with_rsID_def coverage_calculator_def)

lemma no_overlap_skipped:
  "content f = Some d \<Longrightarrow> is_rsid_based d \<or> is_position_based d \<Longrightarrow> missing_columns d = []
     \<Longrightarrow> with_rsID (bim_data pf) d = Inr d' \<Longrightarrow> rows d \<noteq> []
     \<Longrightarrow> common_snps (bim_data pf) d' = {}
     \<Longrightarrow> process_pgs_file pf f = Inl NoOverlap"
  by (auto simp: process_pgs_file_def weight_file_def coverage_calculator_def
           dest: with_rsID_length)

lemma scorer_failure_skipped:
  "weight_file (bim_data pf) f = Inr w \<Longrightarrow> plink_score pf w = None
     \<Longrightarrow> process_pgs_file pf f = Inl ExternalScorerFailure"
  by (simp add: process_pgs_file_def)

text \<open>
  C6. A scoring file whose processing ends in any of the per-file errors changes neither
  the temporary directory nor \<open>profile_files\<close>: the loop goes on with the files after
  it, and the whole run gives what it gives without that file.
\<close>

theorem skipped_file_leaves_run_unchanged:
  assumes "process_pgs_file pf f = Inl e"
  shows "process_pgs_files pf (before @ f # after) st = process_pgs_files pf (before @ after) st
         \<and> calculate_pgs pf (before @ f # after) = calculate_pgs pf (before @ after)"
proof -
  have step: "process_pgs_files pf (f # after) s = process_pgs_files pf after s" for s
    using assms by (cases s) simp
  have "process_pgs_files pf (before @ f # after) s = process_pgs_files pf (before @ after) s" for s
    by (simp add: process_pgs_files_append step)
  then show ?thesis by (simp add: calculate_pgs_def)
qed

theorem skipped_file_leaves_run_unchanged_witness:
  "process_pgs_file example_panel example_empty = Inl (Caught ZeroDivisionError)
   \<and> calculate_pgs example_panel ([example_A] @ example_empty # [example_B])
       = calculate_pgs example_panel ([example_A] @ [example_B])"
proof -
  have h: "process_pgs_file example_panel example_empty = Inl (Caught ZeroDivisionError)"
    by code_simp
  from skipped_file_leaves_run_unchanged[OF h, of "[example_A]" "[example_B]" "(Map.empty, [])"] h
  show ?thesis by simp
qed

text \<open>
  C7. When no scoring file yields a score table, \<open>profile_files\<close> is empty: the run ends
  with \<open>NoScorableDefinitions\<close>, nothing is written to the output path and the caller
  gets \<open>(None, None)\<close>.
\<close>

theorem no_profile_no_output:
  assumes "\<forall>f \<in> set pgs_files. \<exists>e. process_pgs_file pf f = Inl e"
  shows "calculate_pgs pf pgs_files = Inl NoScorableDefinitions
         \<and> output_csv (calculate_pgs pf pgs_files) = None
         \<and> returned (calculate_pgs pf pgs_files) = None"
  using process_pgs_files_all_skipped[OF assms]
  by (simp add: calculate_pgs_def aggregate_def output_csv_def returned_def)

theorem no_profile_no_output_witness:
  "calculate_pgs example_panel [example_no_ids, example_empty] = Inl NoScorableDefinitions
   \<and> output_csv (calculate_pgs example_panel [example_no_ids, example_empty]) = None
   \<and> returned (calculate_pgs example_panel [example_no_ids, example_empty]) = None"
proof -
  have "process_pgs_file example_panel example_no_ids = Inl UnresolvableIdentifierScheme"
    by code_simp
  moreover have "process_pgs_file example_panel example_empty = Inl (Caught ZeroDivisionError)"
    by code_simp
  ultimately have h: "\<forall>f \<in> set [example_no_ids, example_empty].
                        \<exists>e. process_pgs_file example_panel f = Inl e"
    by simp
  from no_profile_no_output[OF h] show ?thesis .
qed

section \<open>Coverage\<close>

text \<open>
  What the two percentages are: the extractor divides by the number of distinct
  identifiers of the scoring file, the calculator by its number of rows.
\<close>

lemma coverage_extractor_claim:
  assumes "pgs_snps d \<noteq> {}"
  shows "\<exists>c. coverage_extractor bim d = Inr c \<and> 0 \<le> c \<and> c \<le> 100
             \<and> (c = 100 \<longleftrightarrow> pgs_snps d \<subseteq> snps bim)"
proof -
  have fin: "finite (pgs_snps d)" by (simp add: pgs_snps_def)
  with assms have pos: "0 < card (pgs_snps d)" by (simp add: card_gt_0_iff)
  have le: "card (common_snps bim d) \<le> card (pgs_snps d)"
    unfolding common_snps_def by (rule card_mono[OF fin]) simp
  have eq: "card (common_snps bim d) = card (pgs_snps d) \<longleftrightarrow> pgs_snps d \<subseteq> snps bim"
  proof
    assume "card (common_snps bim d) = card (pgs_snps d)"
    then have "pgs_snps d \<inter> snps bim = pgs_snps d"
      unfolding common_snps_def by (intro card_subset_eq[OF fin]) simp_all
    then show "pgs_snps d \<subseteq> snps bim" by blast
  next
    assume "pgs_snps d \<subseteq> snps bim"
    then have "pgs_snps d \<inter> snps bim = pgs_snps d" by blast
    then show "card (common_snps bim d) = card (pgs_snps d)" by (simp add: common_snps_def)
  qed
  have "real (card (common_snps bim d)) / real (card (pgs_snps d)) * 100 = 100
          \<longleftrightarrow> card (common_snps bim d) = card (pgs_snps d)"
    using pos by (simp add: field_simps)
  moreover have "real (card (common_snps bim d)) / real (card (pgs_snps d)) * 100 \<le> 100"
    using pos le by (simp add: field_simps)
  ultimately show ?thesis
    using pos eq by (simp add: coverage_extractor_def)
qed

lemma coverage_calculator_claim:
  assumes "rows d \<noteq> []"
  shows "\<exists>c. coverage_calculator bim d = Inr c \<and> 0 \<le> c \<and> c \<le> 100
             \<and> (c = 100 \<longleftrightarrow> pgs_snps d \<subseteq> snps bim \<and> distinct (map rsID (rows d)))"
proof -
  have fin: "finite (pgs_snps d)" by (simp add: pgs_snps_def)
  from assms have pos: "0 < length (rows d)" by simp
  have le1: "card (common_snps bim d) \<le> card (pgs_snps d)"
    unfolding common_snps_def by (rule card_mono[OF fin]) simp
  have le2: "card (pgs_snps d) \<le> length (rows d)"
    unfolding pgs_snps_def using card_length[of "map rsID (rows d)"] by simp
  have eq1: "card (common_snps bim d) = card (pgs_snps d) \<longleftrightarrow> pgs_snps d \<subseteq> snps bim"
  proof
    assume "card (common_snps bim d) = card (pgs_snps d)"
    then have "pgs_snps d \<inter> snps bim = pgs_snps d"
      unfolding common_snps_def by (intro card_subset_eq[OF fin]) simp_all
    then show "pgs_snps d \<subseteq> snps bim" by blast
  next
    assume "pgs_snps d \<subseteq> snps bim"
    then have "pgs_snps d \<inter> snps bim = pgs_snps d" by blast
    then show "card (common_snps bim d) = card (pgs_snps d)" by (simp add: common_snps_def)
  qed
  have eq2: "card (pgs_snps d) = length (rows d) \<longleftrightarrow> distinct (map rsID (rows d))"
    unfolding pgs_snps_def using card_distinct[of "map rsID (rows d)"] distinct_card[of "map rsID (rows d)"]
    by auto
  have "card (common_snps bim d) = length (rows d)
          \<longleftrightarrow> pgs_snps d \<subseteq> snps bim \<and> distinct (map rsID (rows d))"
    using le1 le2 eq1 eq2 by auto
  moreover have "real (card (common_snps bim d)) / real (length (rows d)) * 100 = 100
          \<longleftrightarrow> card (common_snps bim d) = length (rows d)"
    using pos by (simp add: field_simps)
  moreover have "real (card (common_snps bim d)) / real (length (rows d)) * 100 \<le> 100"
    using pos le1 le2 by (simp add: field_simps)
  ultimately show ?thesis
    using pos by (simp add: coverage_calculator_def)
qed

text \<open>
  C3. For a non-empty scoring file the coverage is the share of its identifiers that are
  in the panel, between 0 and 100, and 100 exactly when every entry has an identifier of
  the panel. \<open>extract_pgs_snps_to_dataset\<close> computes this (\<open>coverage_extractor_claim\<close>);
  \<open>calculate_pgs\<close> does not: for the file that lists \<open>rs1\<close> twice, every entry has an
  identifier of the panel and the percentage is 50, where the extractor gives 100.
\<close>

theorem coverage_of_repeated_identifier:
  "set (map rsID (rows example_twice)) \<subseteq> snps example_bim
   \<and> coverage_calculator example_bim example_twice = Inr 50
   \<and> coverage_extractor example_bim example_twice = Inr 100"
  by code_simp

section \<open>Merging the score tables\<close>

lemma length_align: "length (align n xs) = n"
  by (simp add: align_def)

lemma set_update_subset: "set (AList.update k v al) \<subseteq> insert (k, v) (set al)"
  by (induct al) auto

lemma add_scores_Cons:
  assumes "add_scores dir n (p # ps) c0 = Inr c"
  obtains df where "dir p = Some df"
    "add_scores dir n ps (AList.update (column_name p) (align n (map prof_SCORE df)) c0) = Inr c"
  using assms by (auto split: option.splits)

lemma add_scores_names:
  "add_scores dir n ps c0 = Inr c \<Longrightarrow> fst ` set c = fst ` set c0 \<union> column_name ` set ps"
  by (induction ps arbitrary: c0) (auto simp: AList.dom_update split: option.splits)

lemma add_scores_lengths:
  "add_scores dir n ps c0 = Inr c \<Longrightarrow> \<forall>col \<in> set c0. length (snd col) = n
     \<Longrightarrow> \<forall>col \<in> set c. length (snd col) = n"
proof (induction ps arbitrary: c0)
  case Nil
  then show ?case by simp
next
  case (Cons p ps)
  from Cons.prems(1) obtain df where df: "dir p = Some df"
    and rest: "add_scores dir n ps (AList.update (column_name p) (align n (map prof_SCORE df)) c0) = Inr c"
    by (rule add_scores_Cons)
  have "\<forall>col \<in> set (AList.update (column_name p) (align n (map prof_SCORE df)) c0). length (snd col) = n"
    using Cons.prems(2) set_update_subset[of "column_name p" "align n (map prof_SCORE df)" c0]
    by (auto simp: length_align)
  from Cons.IH[OF rest this] show ?case .
qed

lemma add_scores_keep:
  "add_scores dir n ps c0 = Inr c \<Longrightarrow> k \<notin> column_name ` set ps \<Longrightarrow> map_of c k = map_of c0 k"
  by (induction ps arbitrary: c0) (auto simp: AList.update_conv' split: option.splits)

lemma add_scores_lookup:
  assumes "add_scores dir n ps c0 = Inr c" and "p \<in> set ps" and "dir p = Some df"
    and "\<forall>q \<in> set ps. column_name q = column_name p \<longrightarrow> q = p"
  shows "map_of c (column_name p) = Some (align n (map prof_SCORE df))"
  using assms
proof (induction ps arbitrary: c0)
  case Nil
  then show ?case by simp
next
  case (Cons q qs)
  from Cons.prems(1) obtain dq where dq: "dir q = Some dq"
    and rest: "add_scores dir n qs (AList.update (column_name q) (align n (map prof_SCORE dq)) c0) = Inr c"
    by (rule add_scores_Cons)
  show ?case
  proof (cases "p \<in> set qs")
    case True
    with Cons.IH[OF rest True Cons.prems(3)] Cons.prems(4) show ?thesis by simp
  next
    case False
    with Cons.prems(2) have pq: "q = p" by simp
    have "column_name p \<notin> column_name ` set qs"
      using Cons.prems(4) False by auto
    from add_scores_keep[OF rest this] pq dq Cons.prems(3) show ?thesis
      by (simp add: AList.update_conv')
  qed
qed

lemma add_scores_distinct:
  "add_scores dir n ps c0 = Inr c \<Longrightarrow> distinct (map fst c0) \<Longrightarrow> distinct (map fst c)"
  by (induction ps arbitrary: c0) (auto simp: AList.distinct_update split: option.splits)

lemma add_scores_order:
  "add_scores dir n ps c0 = Inr c \<Longrightarrow> distinct (map column_name ps)
     \<Longrightarrow> column_name ` set ps \<inter> fst ` set c0 = {}
     \<Longrightarrow> map fst c = map fst c0 @ map column_name ps"
proof (induction ps arbitrary: c0)
  case Nil
  then show ?case by simp
next
  case (Cons p ps)
  from Cons.prems(1) obtain df where df: "dir p = Some df"
    and rest: "add_scores dir n ps (AList.update (column_name p) (align n (map prof_SCORE df)) c0) = Inr c"
    by (rule add_scores_Cons)
  let ?c1 = "AList.update (column_name p) (align n (map prof_SCORE df)) c0"
  have keys: "map fst ?c1 = map fst c0 @ [column_name p]"
    using Cons.prems(3) by (auto simp: AList.update_keys)
  have "column_name ` set ps \<inter> fst ` set ?c1 = {}"
    using Cons.prems(2,3) by (auto simp: AList.dom_update)
  from Cons.IH[OF rest _ this] Cons.prems(2) keys show ?case by simp
qed

text \<open>The left join on \<open>FID\<close> and \<open>IID\<close>.\<close>

lemma filter_key_distinct:
  "distinct (map k xs) \<Longrightarrow> length (filter (\<lambda>r. k r = a) xs) \<le> 1"
  by (induction xs) (auto simp: filter_empty_conv image_iff)

lemma length_matched_ge: "1 \<le> length (matched fam f i)"
  by (simp add: matched_def split: list.splits)

lemma length_matched_distinct:
  assumes "distinct (map (\<lambda>r. (fam_FID r, fam_IID r)) fam)"
  shows "length (matched fam f i) = 1"
proof -
  have "(\<lambda>r. fam_FID r = f \<and> fam_IID r = i) = (\<lambda>r. (fam_FID r, fam_IID r) = (f, i))" by auto
  then have "length (filter (\<lambda>r. fam_FID r = f \<and> fam_IID r = i) fam) \<le> 1"
    using filter_key_distinct[OF assms, of "(f, i)"] by simp
  then show ?thesis
    by (cases "filter (\<lambda>r. fam_FID r = f \<and> fam_IID r = i) fam") (simp_all add: matched_def split: list.splits)
qed

lemma expand_singletons:
  "length m = length v \<Longrightarrow> \<forall>ps \<in> set m. length ps = 1 \<Longrightarrow> expand m v = v"
  unfolding expand_def
  by (induction m v rule: list_induct2) simp_all

lemma length_expand:
  "length m = length v \<Longrightarrow> length (expand m v) = length (concat m)"
  unfolding expand_def
  by (induction m v rule: list_induct2) simp_all

lemma length_concat_singletons:
  "\<forall>ps \<in> set m. length ps = 1 \<Longrightarrow> length (concat m) = length m"
  by (induction m) simp_all

lemma join_phenotype_Inr:
  assumes "join_phenotype combined fam = Inr ds"
  obtains fids iids where
    "map_of combined ''FID'' = Some fids" "map_of combined ''IID'' = Some iids"
    "''PHENOTYPE'' \<notin> fst ` set combined"
    "final_dataset ds =
       [(''FID'', expand (map (\<lambda>(f, i). matched fam f i) (zip fids iids)) fids),
        (''IID'', expand (map (\<lambda>(f, i). matched fam f i) (zip fids iids)) iids)]
       @ map (\<lambda>(k, v). (k, expand (map (\<lambda>(f, i). matched fam f i) (zip fids iids)) v))
           (filter (\<lambda>c. fst c \<notin> {''FID'', ''IID''}) combined)
       @ [(''y'', concat (map (\<lambda>(f, i). matched fam f i) (zip fids iids)))]"
    "ds_X ds = map (\<lambda>(k, v). (k, expand (map (\<lambda>(f, i). matched fam f i) (zip fids iids)) v))
           (filter (\<lambda>c. fst c \<notin> {''FID'', ''IID''}) combined)"
    "ds_y ds = concat (map (\<lambda>(f, i). matched fam f i) (zip fids iids))"
proof -
  from assms obtain merged x ph fid iid where
    m: "merge_left combined fam = Inr merged"
    and x: "drop_columns [''FID'', ''IID'', ''PHENOTYPE''] merged = Inr x"
    and l: "map_of merged ''PHENOTYPE'' = Some ph" "map_of merged ''FID'' = Some fid" "map_of merged ''IID'' = Some iid"
    and ds: "ds = \<lparr>final_dataset = [(''FID'', fid), (''IID'', iid)] @ x @ [(''y'', ph)], ds_X = x, ds_y = ph\<rparr>"
    by (auto simp: join_phenotype_def split: sum.splits option.splits)
  from m obtain fids iids where k: "map_of combined ''FID'' = Some fids" "map_of combined ''IID'' = Some iids"
    and same: "\<not> (key_types_differ fids (map fam_FID fam) \<or> key_types_differ iids (map fam_IID fam))"
    by (auto simp: merge_left_def split: option.splits if_splits)
  define mm where "mm = map (\<lambda>(f, i). matched fam f i) (zip fids iids)"
  have merged: "merged = map (\<lambda>(k, v). (if k = ''PHENOTYPE'' then ''PHENOTYPE_x'' else k, expand mm v)) combined
                   @ [(if ''PHENOTYPE'' \<in> fst ` set combined then ''PHENOTYPE_y'' else ''PHENOTYPE'', concat mm)]"
    using m k same by (simp add: merge_left_def mm_def Let_def)
  have noph: "''PHENOTYPE'' \<notin> fst ` set combined"
  proof
    assume a: "''PHENOTYPE'' \<in> fst ` set combined"
    have "''PHENOTYPE'' \<notin> fst ` set merged"
      unfolding merged using a by (auto simp: image_iff split: if_splits)
    with x show False by (auto simp: drop_columns_def split: if_splits)
  qed
  then have merged': "merged = map (\<lambda>(k, v). (k, expand mm v)) combined @ [(''PHENOTYPE'', concat mm)]"
    unfolding merged by (auto simp: image_iff)
  have flt: "filter (\<lambda>c. fst c \<notin> set [''FID'', ''IID'', ''PHENOTYPE'']) combined
               = filter (\<lambda>c. fst c \<notin> {''FID'', ''IID''}) combined"
    using noph by (intro filter_cong) (auto simp: image_iff)
  have "x = filter (\<lambda>c. fst c \<notin> set [''FID'', ''IID'', ''PHENOTYPE'']) merged"
    using x by (simp add: drop_columns_def split: if_splits)
  also have "\<dots> = map (\<lambda>(k, v). (k, expand mm v))
                    (filter (\<lambda>c. fst c \<notin> set [''FID'', ''IID'', ''PHENOTYPE'']) combined)"
    unfolding merged' by (simp add: filter_map comp_def case_prod_beta)
  finally have xx: "x = map (\<lambda>(k, v). (k, expand mm v)) (filter (\<lambda>c. fst c \<notin> {''FID'', ''IID''}) combined)"
    unfolding flt .
  have mo: "map_of (map (\<lambda>(k, v). (k, expand mm v)) combined) = map_option (expand mm) \<circ> map_of combined"
    by (induction combined) (auto simp: fun_eq_iff)
  have none: "map_of combined ''PHENOTYPE'' = None"
    using noph by (simp add: map_of_eq_None_iff)
  have "fid = expand mm fids" "iid = expand mm iids" "ph = concat mm"
    using l k none unfolding merged' by (auto simp: map_add_def mo split: option.splits)
  with ds xx k noph show ?thesis
    by (intro that[of fids iids]) (simp_all add: mm_def)
qed

lemma combine_Inr:
  assumes "combine dir (first # rest) = Inr combined" and "dir first = Some base_df"
  shows "add_scores dir (length base_df) (first # rest)
           [(''FID'', map prof_FID base_df), (''IID'', map prof_IID base_df)] = Inr combined"
  using assms by (simp add: combine_def)

lemma final_dataset_names:
  assumes "join_phenotype combined fam = Inr ds"
  shows "fst ` set (final_dataset ds) = {''FID'', ''IID'', ''y''} \<union> fst ` set combined"
proof -
  from assms obtain fids iids where k: "map_of combined ''FID'' = Some fids" "map_of combined ''IID'' = Some iids"
    and fd: "final_dataset ds =
       [(''FID'', expand (map (\<lambda>(f, i). matched fam f i) (zip fids iids)) fids),
        (''IID'', expand (map (\<lambda>(f, i). matched fam f i) (zip fids iids)) iids)]
       @ map (\<lambda>(k, v). (k, expand (map (\<lambda>(f, i). matched fam f i) (zip fids iids)) v))
           (filter (\<lambda>c. fst c \<notin> {''FID'', ''IID''}) combined)
       @ [(''y'', concat (map (\<lambda>(f, i). matched fam f i) (zip fids iids)))]"
    by (rule join_phenotype_Inr)
  have "''FID'' \<in> fst ` set combined" "''IID'' \<in> fst ` set combined"
    using k map_of_eq_None_iff[of combined] by (metis option.distinct(1))+
  moreover have "fst ` set (final_dataset ds) =
      {''FID'', ''IID'', ''y''} \<union> (fst ` set combined - {''FID'', ''IID''})"
    unfolding fd by (auto simp: case_prod_beta intro: rev_image_eqI)
  ultimately show ?thesis by auto
qed

lemma calculate_pgs_Inr:
  assumes "process_pgs_files pf pgs_files (Map.empty, []) = (dir, profile_files)"
    and "calculate_pgs pf pgs_files = Inr ds"
  obtains combined where "profile_files \<noteq> []" "combine dir profile_files = Inr combined"
    "join_phenotype combined (fam_data pf) = Inr ds"
  using assms by (auto simp: calculate_pgs_def aggregate_def split: if_splits sum.splits)

lemma final_dataset_lengths:
  assumes "join_phenotype combined fam = Inr ds"
    and "\<forall>col \<in> set combined. length (snd col) = n"
    and "distinct (map (\<lambda>r. (fam_FID r, fam_IID r)) fam)"
  shows "\<forall>col \<in> set (final_dataset ds). length (snd col) = n"
proof -
  from assms(1) obtain fids iids where k: "map_of combined ''FID'' = Some fids" "map_of combined ''IID'' = Some iids"
    and fd: "final_dataset ds =
       [(''FID'', expand (map (\<lambda>(f, i). matched fam f i) (zip fids iids)) fids),
        (''IID'', expand (map (\<lambda>(f, i). matched fam f i) (zip fids iids)) iids)]
       @ map (\<lambda>(k, v). (k, expand (map (\<lambda>(f, i). matched fam f i) (zip fids iids)) v))
           (filter (\<lambda>c. fst c \<notin> {''FID'', ''IID''}) combined)
       @ [(''y'', concat (map (\<lambda>(f, i). matched fam f i) (zip fids iids)))]"
    by (rule join_phenotype_Inr)
  define m where "m = map (\<lambda>(f, i). matched fam f i) (zip fids iids)"
  have "(''FID'', fids) \<in> set combined" "(''IID'', iids) \<in> set combined"
    using k by (auto dest: map_of_SomeD)
  with assms(2) have lk: "length fids = n" "length iids = n" by auto
  then have lm: "length m = n" by (simp add: m_def)
  have one: "\<forall>ps \<in> set m. length ps = 1"
    by (auto simp: m_def length_matched_distinct[OF assms(3)])
  have ex: "expand m v = v" if "length v = n" for v
    using expand_singletons[of m v] lm one that by simp
  have "length (concat m) = n"
    using length_concat_singletons[OF one] lm by simp
  moreover have "length (expand m v) = n" if "(k, v) \<in> set combined" for k v
    using ex[of v] assms(2) that by auto
  ultimately show ?thesis
    unfolding fd m_def[symmetric] using lk ex by auto
qed

lemma final_dataset_lookup:
  assumes "join_phenotype combined fam = Inr ds"
    and "\<forall>col \<in> set combined. length (snd col) = n"
    and "distinct (map (\<lambda>r. (fam_FID r, fam_IID r)) fam)"
    and "map_of combined k = Some v" and "k \<noteq> ''FID''" "k \<noteq> ''IID''"
  shows "map_of (final_dataset ds) k = Some v"
proof -
  from assms(1) obtain fids iids where key: "map_of combined ''FID'' = Some fids" "map_of combined ''IID'' = Some iids"
    and fd: "final_dataset ds =
       [(''FID'', expand (map (\<lambda>(f, i). matched fam f i) (zip fids iids)) fids),
        (''IID'', expand (map (\<lambda>(f, i). matched fam f i) (zip fids iids)) iids)]
       @ map (\<lambda>(k, v). (k, expand (map (\<lambda>(f, i). matched fam f i) (zip fids iids)) v))
           (filter (\<lambda>c. fst c \<notin> {''FID'', ''IID''}) combined)
       @ [(''y'', concat (map (\<lambda>(f, i). matched fam f i) (zip fids iids)))]"
    by (rule join_phenotype_Inr)
  define m where "m = map (\<lambda>(f, i). matched fam f i) (zip fids iids)"
  have "(''FID'', fids) \<in> set combined" "(''IID'', iids) \<in> set combined" "(k, v) \<in> set combined"
    using key assms(4) by (auto dest: map_of_SomeD)
  with assms(2) have lk: "length fids = n" "length iids = n" "length v = n" by auto
  then have lm: "length m = n" by (simp add: m_def)
  have one: "\<forall>ps \<in> set m. length ps = 1"
    by (auto simp: m_def length_matched_distinct[OF assms(3)])
  have ex: "expand m v = v"
    using expand_singletons[of m v] lm one lk by simp
  have flt: "map_of (filter (\<lambda>c. fst c \<notin> {''FID'', ''IID''}) combined) k = map_of combined k"
    using assms(5,6) by (induction combined) auto
  have mo: "map_of (map (\<lambda>(k, v). (k, expand m v)) xs) = map_option (expand m) \<circ> map_of xs" for xs
    by (induction xs) (auto simp: fun_eq_iff)
  have "map_of (map (\<lambda>(k, v). (k, expand m v)) (filter (\<lambda>c. fst c \<notin> {''FID'', ''IID''}) combined)) k
          = map_option (expand m) (map_of (filter (\<lambda>c. fst c \<notin> {''FID'', ''IID''}) combined) k)"
    by (simp only: mo comp_apply)
  also have "\<dots> = map_option (expand m) (map_of combined k)" by (simp only: flt)
  also have "\<dots> = Some v" using assms(4) ex by simp
  finally have inner:
    "map_of (map (\<lambda>(k, v). (k, expand m v)) (filter (\<lambda>c. fst c \<notin> {''FID'', ''IID''}) combined)) k
       = Some v" .
  show ?thesis
    unfolding fd m_def[symmetric] using assms(5,6) inner
    by (simp add: map_add_def)
qed

text \<open>
  The order of the columns, when the score tables have pairwise different column names
  and none is called \<open>FID\<close> or \<open>IID\<close>.
\<close>

lemma final_columns_in_order:
  assumes "process_pgs_files pf pgs_files (Map.empty, []) = (dir, profile_files)"
    and "calculate_pgs pf pgs_files = Inr ds"
    and "distinct (map column_name profile_files)"
    and "{''FID'', ''IID''} \<inter> column_name ` set profile_files = {}"
  shows "map fst (final_dataset ds) = [''FID'', ''IID''] @ map column_name profile_files @ [''y'']"
proof -
  from assms(1,2) obtain combined where ne: "profile_files \<noteq> []"
    and c: "combine dir profile_files = Inr combined"
    and j: "join_phenotype combined (fam_data pf) = Inr ds"
    by (rule calculate_pgs_Inr)
  from ne obtain first rest where pf: "profile_files = first # rest" by (cases profile_files) auto
  from c pf obtain base_df where b: "dir first = Some base_df"
    by (auto simp: combine_def split: option.splits)
  note add = combine_Inr[OF c[unfolded pf] b]
  have keys: "map fst combined = [''FID'', ''IID''] @ map column_name profile_files"
    using add_scores_order[OF add] assms(3,4) unfolding pf by auto
  from j obtain fids iids where
    fd: "final_dataset ds =
       [(''FID'', expand (map (\<lambda>(f, i). matched (fam_data pf) f i) (zip fids iids)) fids),
        (''IID'', expand (map (\<lambda>(f, i). matched (fam_data pf) f i) (zip fids iids)) iids)]
       @ map (\<lambda>(k, v). (k, expand (map (\<lambda>(f, i). matched (fam_data pf) f i) (zip fids iids)) v))
           (filter (\<lambda>c. fst c \<notin> {''FID'', ''IID''}) combined)
       @ [(''y'', concat (map (\<lambda>(f, i). matched (fam_data pf) f i) (zip fids iids)))]"
    by (rule join_phenotype_Inr)
  have "map fst (filter (\<lambda>c. fst c \<notin> {''FID'', ''IID''}) combined)
        = filter (\<lambda>k. k \<notin> {''FID'', ''IID''}) (map fst combined)"
    by (simp add: filter_map comp_def)
  also have "\<dots> = map column_name profile_files"
  proof -
    have "\<forall>k \<in> set (map column_name profile_files). k \<notin> {''FID'', ''IID''}"
      using assms(4) by fastforce
    then have "filter (\<lambda>k. k \<notin> {''FID'', ''IID''}) (map column_name profile_files)
                 = map column_name profile_files"
      by (simp only: filter_id_conv)
    then show ?thesis unfolding keys by simp
  qed
  finally show ?thesis unfolding fd by (simp add: comp_def case_prod_beta)
qed

text \<open>The run in terms of the score tables it produced.\<close>

lemma process_pgs_files_score_tables:
  "process_pgs_files pf fs (dir, files) =
     (dir ++ map_of (rev (score_tables pf fs)), files @ map fst (score_tables pf fs))"
proof (induction fs arbitrary: dir files)
  case Nil
  then show ?case by (simp add: score_tables_def)
next
  case (Cons f fs)
  show ?case
  proof (cases "process_pgs_file pf f")
    case (Inl e)
    then have "score_tables pf (f # fs) = score_tables pf fs" by (simp add: score_tables_def)
    with Inl Cons.IH show ?thesis by simp
  next
    case (Inr r)
    obtain p t where r: "r = (p, t)" by (cases r)
    with Inr have st: "score_tables pf (f # fs) = (p, t) # score_tables pf fs"
      by (simp add: score_tables_def)
    have "dir ++ map_of (rev (score_tables pf fs) @ [(p, t)])
            = dir ++ ([p \<mapsto> t] ++ map_of (rev (score_tables pf fs)))"
      by (simp only: map_of_append) simp
    also have "\<dots> = (dir ++ [p \<mapsto> t]) ++ map_of (rev (score_tables pf fs))"
      by (simp only: map_add_assoc)
    also have "dir ++ [p \<mapsto> t] = dir(p \<mapsto> t)" by simp
    finally have eq: "dir ++ map_of (rev (score_tables pf (f # fs)))
                    = dir(p \<mapsto> t) ++ map_of (rev (score_tables pf fs))"
      by (simp add: st)
    have names: "files @ map fst (score_tables pf (f # fs))
                   = (files @ [p]) @ map fst (score_tables pf fs)"
      by (simp add: st)
    have "process_pgs_files pf (f # fs) (dir, files)
            = process_pgs_files pf fs (dir(p \<mapsto> t), files @ [p])"
      using Inr r by simp
    also have "\<dots> = (dir(p \<mapsto> t) ++ map_of (rev (score_tables pf fs)),
                      (files @ [p]) @ map fst (score_tables pf fs))"
      by (rule Cons.IH)
    finally show ?thesis by (simp only: eq names)
  qed
qed

lemma score_table_lookup:
  assumes "distinct (map fst xs)" and "(p, t) \<in> set xs"
  shows "(d ++ map_of (rev xs)) p = Some t"
proof -
  have "distinct (map fst (rev xs))" using assms(1) by (simp add: rev_map[symmetric])
  moreover have "(p, t) \<in> set (rev xs)" using assms(2) by simp
  ultimately have "map_of (rev xs) p = Some t" by (rule map_of_is_SomeI)
  then show ?thesis by (rule map_add_find_right)
qed

lemma add_scores_total:
  "\<forall>p \<in> set ps. dir p \<noteq> None \<Longrightarrow> \<exists>c. add_scores dir n ps c0 = Inr c"
  by (induction ps arbitrary: c0) auto

lemma distinct_column_names:
  assumes "distinct (map (column_name \<circ> fst) xs)"
  shows "distinct (map fst xs)"
    and "q \<in> fst ` set xs \<Longrightarrow> p \<in> fst ` set xs \<Longrightarrow> column_name q = column_name p \<Longrightarrow> q = p"
proof -
  have "map (column_name \<circ> fst) xs = map column_name (map fst xs)" by simp
  with assms have d: "distinct (map column_name (map fst xs))" by (simp only:)
  with distinct_map[of column_name "map fst xs"]
  have 1: "distinct (map fst xs)" and 2: "inj_on column_name (set (map fst xs))" by blast+
  from 1 show "distinct (map fst xs)" .
  have "set (map fst xs) = fst ` set xs" by simp
  with 2 have "inj_on column_name (fst ` set xs)" by (simp only:)
  then show "q \<in> fst ` set xs \<Longrightarrow> p \<in> fst ` set xs \<Longrightarrow> column_name q = column_name p \<Longrightarrow> q = p"
    by (blast dest: inj_onD)
qed

lemma run_with_different_names:
  assumes "score_tables pf fs = (first, base_df) # rest"
    and "distinct (map (column_name \<circ> fst) (score_tables pf fs))"
  obtains dir combined where
    "process_pgs_files pf fs (Map.empty, []) = (dir, map fst (score_tables pf fs))"
    "\<forall>p t. (p, t) \<in> set (score_tables pf fs) \<longrightarrow> dir p = Some t"
    "combine dir (map fst (score_tables pf fs)) = Inr combined"
    "add_scores dir (length base_df) (map fst (score_tables pf fs))
       [(''FID'', map prof_FID base_df), (''IID'', map prof_IID base_df)] = Inr combined"
proof -
  define dir where "dir = Map.empty ++ map_of (rev (score_tables pf fs))"
  have run: "process_pgs_files pf fs (Map.empty, []) = (dir, map fst (score_tables pf fs))"
    by (simp add: process_pgs_files_score_tables dir_def)
  have look: "dir p = Some t" if "(p, t) \<in> set (score_tables pf fs)" for p t
    unfolding dir_def using distinct_column_names(1)[OF assms(2)] that by (rule score_table_lookup)
  have "\<forall>p \<in> set (map fst (score_tables pf fs)). dir p \<noteq> None"
    using look by auto
  then obtain combined where
    add: "add_scores dir (length base_df) (map fst (score_tables pf fs))
            [(''FID'', map prof_FID base_df), (''IID'', map prof_IID base_df)] = Inr combined"
    using add_scores_total by blast
  have "dir first = Some base_df" using look[of first base_df] assms(1) by simp
  with add assms(1) have comb: "combine dir (map fst (score_tables pf fs)) = Inr combined"
    by (simp add: combine_def)
  from look have "\<forall>p t. (p, t) \<in> set (score_tables pf fs) \<longrightarrow> dir p = Some t" by blast
  from that[OF run this comb add] show ?thesis .
qed

text \<open>
  C1, as amended. In a run whose score tables have pairwise different column names,
  none of them \<open>FID\<close> or \<open>IID\<close>: the frame built at lines 130-139 has the \<open>FID\<close> and
  \<open>IID\<close> columns, and so the order and the number of rows, of the first score table
  that was produced; the \<open>SCORE\<close> column of every score table that was produced stands
  there under its column name, attached by row position, cut or filled with \<open>NaN\<close> to
  that number of rows, whatever samples the table lists; and if the run writes an output
  dataset, that column is one of its columns and, when no two rows of the \<open>.fam\<close> file
  have the same \<open>FID\<close> and \<open>IID\<close>, it has the same values there. Nothing is signalled
  and no column is left out.
\<close>

theorem scores_attached_by_position:
  assumes "score_tables pf pgs_files = (first, base_df) # rest"
    and "distinct (map (column_name \<circ> fst) (score_tables pf pgs_files))"
    and "''FID'' \<notin> set (map (column_name \<circ> fst) (score_tables pf pgs_files))"
    and "''IID'' \<notin> set (map (column_name \<circ> fst) (score_tables pf pgs_files))"
    and "(p, df) \<in> set (score_tables pf pgs_files)"
  shows "\<exists>dir combined.
           process_pgs_files pf pgs_files (Map.empty, [])
             = (dir, map fst (score_tables pf pgs_files))
           \<and> combine dir (map fst (score_tables pf pgs_files)) = Inr combined
           \<and> map_of combined ''FID'' = Some (map prof_FID base_df)
           \<and> map_of combined ''IID'' = Some (map prof_IID base_df)
           \<and> map_of combined (column_name p)
               = Some (align (length base_df) (map prof_SCORE df))
           \<and> (\<forall>ds. calculate_pgs pf pgs_files = Inr ds \<longrightarrow>
                 column_name p \<in> fst ` set (final_dataset ds)
                 \<and> (distinct (map (\<lambda>r. (fam_FID r, fam_IID r)) (fam_data pf)) \<longrightarrow>
                      map_of (final_dataset ds) (column_name p)
                        = Some (align (length base_df) (map prof_SCORE df))))"
proof -
  let ?xs = "score_tables pf pgs_files"
  from assms(1,2) obtain dir combined where
    run: "process_pgs_files pf pgs_files (Map.empty, []) = (dir, map fst ?xs)"
    and look: "\<forall>p t. (p, t) \<in> set ?xs \<longrightarrow> dir p = Some t"
    and comb: "combine dir (map fst ?xs) = Inr combined"
    and add: "add_scores dir (length base_df) (map fst ?xs)
                [(''FID'', map prof_FID base_df), (''IID'', map prof_IID base_df)] = Inr combined"
    by (rule run_with_different_names)
  have nf: "''FID'' \<notin> column_name ` set (map fst ?xs)" "''IID'' \<notin> column_name ` set (map fst ?xs)"
    using assms(3,4) by (simp_all add: image_comp)
  have fid: "map_of combined ''FID'' = Some (map prof_FID base_df)"
    using add_scores_keep[OF add nf(1)] by simp
  have iid: "map_of combined ''IID'' = Some (map prof_IID base_df)"
    using add_scores_keep[OF add nf(2)] by simp
  have pin: "p \<in> set (map fst ?xs)" using assms(5) by force
  have uniq: "\<forall>q \<in> set (map fst ?xs). column_name q = column_name p \<longrightarrow> q = p"
    using distinct_column_names(2)[OF assms(2)] pin by auto
  have col: "map_of combined (column_name p) = Some (align (length base_df) (map prof_SCORE df))"
  proof -
    from look assms(5) have "dir p = Some df" by blast
    from add_scores_lookup[OF add pin this uniq] show ?thesis .
  qed
  have len: "\<forall>c \<in> set combined. length (snd c) = length base_df"
    by (rule add_scores_lengths[OF add]) simp
  have pne: "column_name p \<noteq> ''FID''" "column_name p \<noteq> ''IID''"
  proof -
    define names where "names = column_name ` set (map fst ?xs)"
    have "column_name p \<in> names" unfolding names_def using pin by (rule imageI)
    moreover have "''FID'' \<notin> names" "''IID'' \<notin> names" unfolding names_def by (rule nf)+
    ultimately show "column_name p \<noteq> ''FID''" "column_name p \<noteq> ''IID''" by auto
  qed
  have fin: "column_name p \<in> fst ` set (final_dataset ds)
             \<and> (distinct (map (\<lambda>r. (fam_FID r, fam_IID r)) (fam_data pf)) \<longrightarrow>
                  map_of (final_dataset ds) (column_name p)
                    = Some (align (length base_df) (map prof_SCORE df)))"
    if r: "calculate_pgs pf pgs_files = Inr ds" for ds
  proof -
    from run r obtain combined' where "combine dir (map fst ?xs) = Inr combined'"
      and j: "join_phenotype combined' (fam_data pf) = Inr ds"
      by (rule calculate_pgs_Inr)
    with comb have j: "join_phenotype combined (fam_data pf) = Inr ds" by simp
    have "column_name p \<in> fst ` set combined"
      using col map_of_eq_None_iff[of combined "column_name p"] by auto
    then have 1: "column_name p \<in> fst ` set (final_dataset ds)"
      by (simp add: final_dataset_names[OF j])
    have 2: "map_of (final_dataset ds) (column_name p)
               = Some (align (length base_df) (map prof_SCORE df))"
      if d: "distinct (map (\<lambda>r. (fam_FID r, fam_IID r)) (fam_data pf))"
      using final_dataset_lookup[OF j len d col pne] .
    from 1 2 show ?thesis by blast
  qed
  from run comb fid iid col fin show ?thesis by blast
qed

theorem scores_attached_by_position_witness:
  "score_tables example_panel [example_A, example_B]
     = [(''A.profile'', example_table_A), (''B.profile'', example_table_B)]
   \<and> (Val ''F9'', Val ''I9'') \<in> set (map (\<lambda>r. (prof_FID r, prof_IID r)) example_table_B)
   \<and> (Val ''F9'', Val ''I9'') \<notin> set (map (\<lambda>r. (prof_FID r, prof_IID r)) example_table_A)
   \<and> (\<exists>dir combined.
         process_pgs_files example_panel [example_A, example_B] (Map.empty, [])
           = (dir, [''A.profile'', ''B.profile''])
         \<and> combine dir [''A.profile'', ''B.profile''] = Inr combined
         \<and> map_of combined ''FID'' = Some [Val ''F1'', Val ''F2'']
         \<and> map_of combined ''IID'' = Some [Val ''I1'', Val ''I2'']
         \<and> map_of combined ''B'' = Some [Val ''0.1'', Val ''0.9''])
   \<and> map_of (final_dataset (projr (calculate_pgs example_panel [example_A, example_B]))) ''B''
       = Some [Val ''0.1'', Val ''0.9'']"
proof -
  have st: "score_tables example_panel [example_A, example_B]
              = (''A.profile'', example_table_A) # [(''B.profile'', example_table_B)]"
    by code_simp
  have h2: "distinct (map (column_name \<circ> fst) (score_tables example_panel [example_A, example_B]))"
    by code_simp
  have h3: "''FID'' \<notin> set (map (column_name \<circ> fst) (score_tables example_panel [example_A, example_B]))"
    by code_simp
  have h4: "''IID'' \<notin> set (map (column_name \<circ> fst) (score_tables example_panel [example_A, example_B]))"
    by code_simp
  have h5: "(''B.profile'', example_table_B) \<in> set (score_tables example_panel [example_A, example_B])"
    by code_simp
  have k: "(Val ''F9'', Val ''I9'') \<in> set (map (\<lambda>r. (prof_FID r, prof_IID r)) example_table_B)
   \<and> (Val ''F9'', Val ''I9'') \<notin> set (map (\<lambda>r. (prof_FID r, prof_IID r)) example_table_A)"
    by code_simp
  have v: "map prof_FID example_table_A = [Val ''F1'', Val ''F2'']"
      "map prof_IID example_table_A = [Val ''I1'', Val ''I2'']"
      "align (length example_table_A) (map prof_SCORE example_table_B) = [Val ''0.1'', Val ''0.9'']"
      "column_name ''B.profile'' = ''B''"
    by code_simp+
  have r: "calculate_pgs example_panel [example_A, example_B]
             = Inr (projr (calculate_pgs example_panel [example_A, example_B]))"
    by code_simp
  have d: "distinct (map (\<lambda>r. (fam_FID r, fam_IID r)) (fam_data example_panel))"
    by code_simp
  from scores_attached_by_position[OF st h2 h3 h4 h5] obtain dir combined where
    "process_pgs_files example_panel [example_A, example_B] (Map.empty, [])
       = (dir, map fst (score_tables example_panel [example_A, example_B]))"
    "combine dir (map fst (score_tables example_panel [example_A, example_B])) = Inr combined"
    "map_of combined ''FID'' = Some (map prof_FID example_table_A)"
    "map_of combined ''IID'' = Some (map prof_IID example_table_A)"
    "map_of combined (column_name ''B.profile'')
       = Some (align (length example_table_A) (map prof_SCORE example_table_B))"
    "\<forall>ds. calculate_pgs example_panel [example_A, example_B] = Inr ds \<longrightarrow>
       column_name ''B.profile'' \<in> fst ` set (final_dataset ds)
       \<and> (distinct (map (\<lambda>r. (fam_FID r, fam_IID r)) (fam_data example_panel)) \<longrightarrow>
            map_of (final_dataset ds) (column_name ''B.profile'')
              = Some (align (length example_table_A) (map prof_SCORE example_table_B)))"
    by blast
  with st k v r d show ?thesis by auto
qed

text \<open>
  C1 as stated fails: the score table of \<open>B\<close> lists the sample \<open>(F9, I9)\<close>, which the
  base table (that of \<open>A\<close>) does not have, and the column \<open>B\<close> is in the final
  dataset, the score of \<open>(F9, I9)\<close> standing in the row of \<open>(F2, I2)\<close>.
\<close>

theorem sample_key_mismatch_counterexample:
  "process_pgs_file example_panel example_A = Inr (''A.profile'', example_table_A)
   \<and> process_pgs_file example_panel example_B = Inr (''B.profile'', example_table_B)
   \<and> (Val ''F9'', Val ''I9'') \<in> set (map (\<lambda>r. (prof_FID r, prof_IID r)) example_table_B)
   \<and> (Val ''F9'', Val ''I9'') \<notin> set (map (\<lambda>r. (prof_FID r, prof_IID r)) example_table_A)
   \<and> calculate_pgs example_panel [example_A, example_B] = Inr
        \<lparr>final_dataset =
           [(''FID'', [Val ''F1'', Val ''F2'']), (''IID'', [Val ''I1'', Val ''I2'']),
            (''A'', [Val ''0.5'', Val ''0.7'']), (''B'', [Val ''0.1'', Val ''0.9'']),
            (''y'', [Val ''1'', Val ''2''])],
         ds_X = [(''A'', [Val ''0.5'', Val ''0.7'']), (''B'', [Val ''0.1'', Val ''0.9''])],
         ds_y = [Val ''1'', Val ''2'']\<rparr>"
  by code_simp

text \<open>
  C2, as amended. For every run that writes an output dataset, in which the score tables
  have pairwise different column names, none of them \<open>FID\<close> or \<open>IID\<close>, and no two
  rows of the \<open>.fam\<close> file have the same \<open>FID\<close> and \<open>IID\<close>: every column of the
  dataset has as many rows as the first score table that was produced, however many
  scoring files were left out; and the columns are \<open>FID\<close>, \<open>IID\<close>, one score column
  for each score table that was produced, and the phenotype column \<open>y\<close>.
\<close>

theorem rows_follow_first_score_table:
  assumes "calculate_pgs pf pgs_files = Inr ds"
    and "score_tables pf pgs_files = (first, base_df) # rest"
    and "distinct (map (column_name \<circ> fst) (score_tables pf pgs_files))"
    and "''FID'' \<notin> set (map (column_name \<circ> fst) (score_tables pf pgs_files))"
    and "''IID'' \<notin> set (map (column_name \<circ> fst) (score_tables pf pgs_files))"
    and "distinct (map (\<lambda>r. (fam_FID r, fam_IID r)) (fam_data pf))"
  shows "(\<forall>col \<in> set (final_dataset ds). length (snd col) = length base_df)
         \<and> map fst (final_dataset ds)
             = [''FID'', ''IID''] @ map (column_name \<circ> fst) (score_tables pf pgs_files) @ [''y'']"
proof -
  let ?xs = "score_tables pf pgs_files"
  from assms(2,3) obtain dir combined where
    run: "process_pgs_files pf pgs_files (Map.empty, []) = (dir, map fst ?xs)"
    and "\<forall>p t. (p, t) \<in> set ?xs \<longrightarrow> dir p = Some t"
    and comb: "combine dir (map fst ?xs) = Inr combined"
    and add: "add_scores dir (length base_df) (map fst ?xs)
                [(''FID'', map prof_FID base_df), (''IID'', map prof_IID base_df)] = Inr combined"
    by (rule run_with_different_names)
  from run assms(1) obtain combined' where "combine dir (map fst ?xs) = Inr combined'"
    and "join_phenotype combined' (fam_data pf) = Inr ds"
    by (rule calculate_pgs_Inr)
  with comb have j: "join_phenotype combined (fam_data pf) = Inr ds" by simp
  have len: "\<forall>c \<in> set combined. length (snd c) = length base_df"
    by (rule add_scores_lengths[OF add]) simp
  have d: "distinct (map column_name (map fst ?xs))" using assms(3) by simp
  have n: "{''FID'', ''IID''} \<inter> column_name ` set (map fst ?xs) = {}"
    using assms(4,5) by (simp add: image_comp)
  have "map fst (final_dataset ds) = [''FID'', ''IID''] @ map column_name (map fst ?xs) @ [''y'']"
    by (rule final_columns_in_order[OF run assms(1) d n])
  with final_dataset_lengths[OF j len assms(6)] show ?thesis by simp
qed

theorem rows_follow_first_score_table_witness:
  "score_tables example_panel [example_A, example_no_ids, example_B]
     = [(''A.profile'', example_table_A), (''B.profile'', example_table_B)]
   \<and> length example_table_A = 2
   \<and> map (\<lambda>col. length (snd col))
         (final_dataset (projr (calculate_pgs example_panel [example_A, example_no_ids, example_B])))
       = [2, 2, 2, 2, 2]
   \<and> map fst (final_dataset (projr (calculate_pgs example_panel [example_A, example_no_ids, example_B])))
       = [''FID'', ''IID'', ''A'', ''B'', ''y'']"
proof -
  let ?fs = "[example_A, example_no_ids, example_B]"
  have h1: "calculate_pgs example_panel ?fs = Inr (projr (calculate_pgs example_panel ?fs))"
    by code_simp
  have h2: "score_tables example_panel ?fs
              = (''A.profile'', example_table_A) # [(''B.profile'', example_table_B)]"
    by code_simp
  have h3: "distinct (map (column_name \<circ> fst) (score_tables example_panel ?fs))"
    by code_simp
  have h4: "''FID'' \<notin> set (map (column_name \<circ> fst) (score_tables example_panel ?fs))"
    by code_simp
  have h5: "''IID'' \<notin> set (map (column_name \<circ> fst) (score_tables example_panel ?fs))"
    by code_simp
  have h6: "distinct (map (\<lambda>r. (fam_FID r, fam_IID r)) (fam_data example_panel))"
    by code_simp
  have l: "length example_table_A = 2" by code_simp
  have n: "length (final_dataset (projr (calculate_pgs example_panel ?fs))) = 5"
    by code_simp
  have c: "map (column_name \<circ> fst) [(''A.profile'', example_table_A), (''B.profile'', example_table_B)]
             = [''A'', ''B'']"
    by code_simp
  have r: "map f xs = [a, a, a, a, a]" if "length xs = 5" "\<forall>x \<in> set xs. f x = a"
    for f :: "string \<times> cell list \<Rightarrow> nat" and xs a
    using that by (auto simp: length_Suc_conv numeral_eq_Suc)
  from rows_follow_first_score_table[OF h1 h2 h3 h4 h5 h6] h2 l c r[OF n] show ?thesis by auto
qed

text \<open>
  C2 as stated fails: with a \<open>.fam\<close> file of one sample and a score table of two, the
  dataset that is written has two rows. And with a \<open>.fam\<close> file that lists one sample
  twice, the dataset has three rows, for two rows of the \<open>.fam\<close> file and of the score
  table.
\<close>

theorem pedigree_row_count_counterexample:
  "length (fam_data example_panel_one_sample) = 1
   \<and> calculate_pgs example_panel_one_sample [example_A] = Inr
        \<lparr>final_dataset =
           [(''FID'', [Val ''F1'', Val ''F2'']), (''IID'', [Val ''I1'', Val ''I2'']),
            (''A'', [Val ''0.5'', Val ''0.7'']), (''y'', [Val ''1'', NaN])],
         ds_X = [(''A'', [Val ''0.5'', Val ''0.7''])],
         ds_y = [Val ''1'', NaN]\<rparr>
   \<and> length (fam_data example_panel_repeated_sample) = 2
   \<and> calculate_pgs example_panel_repeated_sample [example_A] = Inr
        \<lparr>final_dataset =
           [(''FID'', [Val ''F1'', Val ''F1'', Val ''F2'']),
            (''IID'', [Val ''I1'', Val ''I1'', Val ''I2'']),
            (''A'', [Val ''0.5'', Val ''0.5'', Val ''0.7'']),
            (''y'', [Val ''1'', Val ''2'', NaN])],
         ds_X = [(''A'', [Val ''0.5'', Val ''0.5'', Val ''0.7''])],
         ds_y = [Val ''1'', Val ''2'', NaN]\<rparr>"
  by code_simp

text \<open>
  C9. The columns of the output are \<open>FID\<close>, \<open>IID\<close>, one score column for each scored
  file in the order of processing, and the phenotype (named \<open>y\<close>). This holds when the
  names differ (\<open>final_columns_in_order\<close>), and it fails for two files of one folder
  whose names give the same \<open>pgs_name\<close>: \<open>A.txt\<close> and \<open>A.txt.txt\<close> are both scored,
  and the output has the single score column \<open>A\<close>.
\<close>

theorem same_name_one_score_column:
  "process_pgs_file example_panel example_A = Inr (''A.profile'', example_table_A)
   \<and> process_pgs_file example_panel example_A_again = Inr (''A.profile'', example_table_A)
   \<and> calculate_pgs example_panel [example_A, example_A_again] = Inr
        \<lparr>final_dataset =
           [(''FID'', [Val ''F1'', Val ''F2'']), (''IID'', [Val ''I1'', Val ''I2'']),
            (''A'', [Val ''0.5'', Val ''0.7'']), (''y'', [Val ''1'', Val ''2''])],
         ds_X = [(''A'', [Val ''0.5'', Val ''0.7''])],
         ds_y = [Val ''1'', Val ''2'']\<rparr>"
  by code_simp

section \<open>The phenotype join and the label vector\<close>

text \<open>
  In \<open>calculate_pgs\<close> every row of the left frame gives at least one row of the result,
  and a row without a match in the \<open>.fam\<close> file gets \<open>NaN\<close>.
\<close>

lemma matched_unmatched:
  "\<forall>r \<in> set fam. (fam_FID r, fam_IID r) \<noteq> (f, i) \<Longrightarrow> matched fam f i = [NaN]"
proof -
  assume "\<forall>r \<in> set fam. (fam_FID r, fam_IID r) \<noteq> (f, i)"
  then have "filter (\<lambda>r. fam_FID r = f \<and> fam_IID r = i) fam = []"
    by (auto simp: filter_empty_conv)
  then show ?thesis by (simp add: matched_def)
qed

lemma phenotype_join_rows:
  assumes "join_phenotype combined fam = Inr ds"
  obtains fids iids where "map_of combined ''FID'' = Some fids" "map_of combined ''IID'' = Some iids"
    "ds_y ds = concat (map (\<lambda>(f, i). matched fam f i) (zip fids iids))"
    "\<forall>(f, i) \<in> set (zip fids iids). matched fam f i \<noteq> []"
proof -
  from assms obtain fids iids where "map_of combined ''FID'' = Some fids" "map_of combined ''IID'' = Some iids"
    "ds_y ds = concat (map (\<lambda>(f, i). matched fam f i) (zip fids iids))"
    by (rule join_phenotype_Inr)
  moreover have "\<forall>(f, i) \<in> set (zip fids iids). matched fam f i \<noteq> []"
    using length_matched_ge by (auto simp: Suc_le_eq)
  ultimately show ?thesis by (rule that)
qed

text \<open>
  The extractor never gets to its label vector: whatever the scoring file and the panel,
  it returns \<open>(None, None)\<close>, at the latest when line 79 raises.
\<close>

lemma extractor_returns_nothing: "\<exists>e. extract_pgs_snps_to_dataset f pf = Inl e"
  by (simp add: extract_pgs_snps_to_dataset_def run_extract_def split: option.splits sum.splits)

text \<open>
  C8. Both joins are left joins on the pair \<open>(FID, IID)\<close>: they keep every sample row,
  and a row whose pair no row of the \<open>.fam\<close> file has gets a missing phenotype. The
  merge of \<open>calculate_pgs\<close> does so (\<open>matched_unmatched\<close>, \<open>phenotype_join_rows\<close>). The
  extractor does not build a label vector at all: for the scoring files \<open>A\<close> and \<open>B\<close>
  of the example, which pass the checks before line 79, the call of \<open>subprocess.run\<close>
  raises, and the function returns \<open>(None, None)\<close> without a single sample row.
\<close>

theorem extractor_raises_before_labels:
  "coverage_extractor (bim_data example_panel) (the (content example_A)) = Inr (200 / 3)
   \<and> extract_pgs_snps_to_dataset example_A example_panel = Inl (Caught ValueError)
   \<and> extract_pgs_snps_to_dataset example_B example_panel = Inl (Caught ValueError)"
  by code_simp

end
